theory Spec2Isabelle
  imports Main "HOL-Library.Sublist"
begin

section \<open>Go errors\<close>

text \<open>
  A Go \<^verbatim>\<open>error\<close> is observed through its message (\<^verbatim>\<open>Error()\<close>) and the error it
  wraps (\<^verbatim>\<open>Unwrap()\<close>). \<^verbatim>\<open>errors.New(s)\<close> and \<^verbatim>\<open>fmt.Errorf\<close> without an error operand
  give an \<open>ErrorString\<close>; \<^verbatim>\<open>fmt.Errorf("...%w", err)\<close> gives a \<open>WrapError\<close> that holds the
  formatted message and the wrapped error. A \<^verbatim>\<open>nil\<close> error is \<open>None\<close>.
\<close>

datatype error = ErrorString string | WrapError string error

fun Error :: "error \<Rightarrow> string" where
  "Error (ErrorString s) = s"
| "Error (WrapError msg err) = msg"

fun Unwrap :: "error \<Rightarrow> error option" where
  "Unwrap (ErrorString s) = None"
| "Unwrap (WrapError msg err) = Some err"

text \<open>
  \<^verbatim>\<open>fmt.Errorf(fmt + "%w", err)\<close>: the message is the text \<open>fmt\<close> followed by the message of
  \<^verbatim>\<open>err\<close>. With a \<^verbatim>\<open>nil\<close> operand the verb prints \<^verbatim>\<open>%!w(<nil>)\<close> and nothing is wrapped.
\<close>

fun Errorf_w :: "string \<Rightarrow> error option \<Rightarrow> error" where
  "Errorf_w fmt (Some err) = WrapError (fmt @ Error err) err"
| "Errorf_w fmt None = ErrorString (fmt @ ''%!w(<nil>)'')"

section \<open>The data model of the builder\<close>

text \<open>\<^verbatim>\<open>apiv1.ModuleReference\<close>, as far as \<^verbatim>\<open>GetBundle\<close> fills it.\<close>

record ModuleReference =
  Repository :: string
  Version :: string
  Digest :: string

record 'v BundleInstance =
  Bundle :: string
  Name :: string
  Namespace :: string
  Module :: ModuleReference
  Values :: 'v

record 'v Bundle =
  Name :: string
  Instances :: "'v BundleInstance list"

text \<open>
  The constants of package \<^verbatim>\<open>api/v1alpha1\<close> the builder reads: the embedded schema text and
  the path selectors, each already rendered by its \<^verbatim>\<open>String()\<close> method. Their values are
  fixed in that package and not in the builder, so they are parameters of the model.
\<close>

record apiv1 =
  BundleSchema :: string
  BundleName :: string
  BundleInstancesSelector :: string
  BundleModuleURLSelector :: string
  BundleModuleDigestSelector :: string
  BundleModuleVersionSelector :: string
  BundleNamespaceSelector :: string
  BundleValuesSelector :: string

section \<open>The evaluation engine, as the builder calls it\<close>

text \<open>
  The methods of \<^verbatim>\<open>cue.Value\<close> used by the builder, for an arbitrary type \<open>'v\<close> of values:
  \<^item> \<open>cue_LookupPath v p\<close> is \<^verbatim>\<open>v.LookupPath(cue.ParsePath(p))\<close>;
  \<^item> \<open>cue_String v\<close> is \<^verbatim>\<open>v.String()\<close>, \<open>Inl\<close> the error; the engine returns the empty
    string together with its error, which is what a caller that drops the error keeps;
  \<^item> \<open>cue_Err v\<close> is \<^verbatim>\<open>v.Err()\<close>;
  \<^item> \<open>cue_Fields v\<close> is \<^verbatim>\<open>v.Fields(cue.Concrete(true))\<close> followed by the iteration
    \<^verbatim>\<open>for iter.Next()\<close>: for each entry, in iteration order, the key of the entry in the
    mapping (the label that \<^verbatim>\<open>iter.Selector()\<close> selects) and \<^verbatim>\<open>iter.Value()\<close>, or the error of
    \<^verbatim>\<open>Fields\<close>;
  \<^item> \<open>cue_Selector_String k\<close> is \<^verbatim>\<open>String()\<close> of the selector of the key \<open>k\<close>: the key as
    the engine writes it in source text;
  \<^item> \<open>cue_Unify v w\<close> is \<^verbatim>\<open>v.Unify(w)\<close>;
  \<^item> \<open>cue_Validate v\<close> is \<^verbatim>\<open>v.Validate(cue.Concrete(true))\<close>.
\<close>

record 'v cue =
  cue_LookupPath :: "'v \<Rightarrow> string \<Rightarrow> 'v"
  cue_String :: "'v \<Rightarrow> error + string"
  cue_Err :: "'v \<Rightarrow> error option"
  cue_Fields :: "'v \<Rightarrow> error + (string \<times> 'v) list"
  cue_Selector_String :: "string \<Rightarrow> string"
  cue_Unify :: "'v \<Rightarrow> 'v \<Rightarrow> 'v"
  cue_Validate :: "'v \<Rightarrow> error option"

text \<open>\<^verbatim>\<open>s, _ := v.String()\<close>: the error is dropped and the string kept.\<close>

definition String_or_empty :: "('v, 'm) cue_scheme \<Rightarrow> 'v \<Rightarrow> string" where
  "String_or_empty c v = (case cue_String c v of Inl err \<Rightarrow> [] | Inr s \<Rightarrow> s)"

section \<open>GetBundle\<close>

text \<open>
  The body of the loop \<^verbatim>\<open>for iter.Next()\<close>: one record per entry of the iterator. The name
  is \<^verbatim>\<open>iter.Selector().String()\<close>.
\<close>

definition instance_of :: "apiv1 \<Rightarrow> ('v, 'm) cue_scheme \<Rightarrow> string \<Rightarrow> string \<times> 'v \<Rightarrow> 'v BundleInstance" where
  "instance_of api c bundleName entry =
     (let name = cue_Selector_String c (fst entry);
          expr = snd entry;
          vURL = cue_LookupPath c expr (BundleModuleURLSelector api);
          url = String_or_empty c vURL;
          vDigest = cue_LookupPath c expr (BundleModuleDigestSelector api);
          digest = String_or_empty c vDigest;
          vVersion = cue_LookupPath c expr (BundleModuleVersionSelector api);
          version = String_or_empty c vVersion;
          vNamespace = cue_LookupPath c expr (BundleNamespaceSelector api);
          namespace = String_or_empty c vNamespace;
          values = cue_LookupPath c expr (BundleValuesSelector api)
      in \<lparr> Bundle = bundleName,
           BundleInstance.Name = name,
           Namespace = namespace,
           Module = \<lparr> Repository = url, Version = version, Digest = digest \<rparr>,
           Values = values \<rparr>)"

text \<open>The loop itself: \<^verbatim>\<open>list = append(list, ...)\<close> for each entry in turn.\<close>

fun collect :: "apiv1 \<Rightarrow> ('v, 'm) cue_scheme \<Rightarrow> string \<Rightarrow> (string \<times> 'v) list \<Rightarrow>
    'v BundleInstance list \<Rightarrow> 'v BundleInstance list" where
  "collect api c bundleName [] list = list"
| "collect api c bundleName (entry # iter) list =
     collect api c bundleName iter (list @ [instance_of api c bundleName entry])"

definition GetBundle :: "apiv1 \<Rightarrow> ('v, 'm) cue_scheme \<Rightarrow> 'v \<Rightarrow> error + 'v Bundle" where
  "GetBundle api c v =
     (let bundleNameValue = cue_LookupPath c v (BundleName api) in
      case cue_String c bundleNameValue of
        Inl err \<Rightarrow>
          Inl (Errorf_w (''lookup '' @ BundleName api @ '' failed: '') (cue_Err c bundleNameValue))
      | Inr bundleName \<Rightarrow>
          (let instances = cue_LookupPath c v (BundleInstancesSelector api) in
           case cue_Err c instances of
             Some err \<Rightarrow>
               Inl (Errorf_w (''lookup '' @ BundleInstancesSelector api @ '' failed: '')
                      (cue_Err c instances))
           | None \<Rightarrow>
               (case cue_Fields c instances of
                  Inl err \<Rightarrow> Inl err
                | Inr iter \<Rightarrow>
                    Inr \<lparr> Name = bundleName,
                          Instances = collect api c bundleName iter [] \<rparr>)))"

section \<open>Build\<close>

text \<open>
  \<^verbatim>\<open>build.File\<close> and \<^verbatim>\<open>build.Instance\<close>, with the fields \<^verbatim>\<open>Build\<close> reads; the other fields of
  an instance are the extension of the record. \<^verbatim>\<open>build.Encoding\<close> is a Go string type and
  \<^verbatim>\<open>build.YAML\<close> its constant \<^verbatim>\<open>"yaml"\<close>.
\<close>

record build_File =
  Filename :: string
  Encoding :: string
  Source :: string

record build_Instance =
  Err :: "error option"
  OrphanedFiles :: "build_File list"

definition build_YAML :: string where
  "build_YAML = ''yaml''"

text \<open>
  The rest of the engine, for a type \<open>'w\<close> of file-system states, a type \<open>'a\<close> of syntax
  trees and instances with extension \<open>'i\<close>:
  \<^item> \<open>load_Instances files w\<close> is \<^verbatim>\<open>load.Instances(files, cfg)\<close> with the configuration
    \<^verbatim>\<open>{Package: "_", DataFiles: true}\<close>, reading the files from \<open>w\<close>;
  \<^item> \<open>ctx_BuildInstance inst\<close> is \<^verbatim>\<open>b.ctx.BuildInstance(inst)\<close>;
  \<^item> \<open>yaml_Extract filename source\<close> is \<^verbatim>\<open>yaml.Extract(filename, source)\<close>;
  \<^item> \<open>ctx_BuildFile a\<close> is \<^verbatim>\<open>b.ctx.BuildFile(a)\<close>.
\<close>

record ('v, 'i, 'a, 'w) engine = "'v cue" +
  load_Instances :: "string list \<Rightarrow> 'w \<Rightarrow> 'i build_Instance_scheme list"
  ctx_BuildInstance :: "'i build_Instance_scheme \<Rightarrow> 'v"
  yaml_Extract :: "string \<Rightarrow> string \<Rightarrow> error + 'a"
  ctx_BuildFile :: "'a \<Rightarrow> 'v"

text \<open>
  \<^verbatim>\<open>BundleBuilder\<close>: the context and the injector are the engine and the injector the
  functions below take; the record keeps the field the methods read and write.
\<close>

record BundleBuilder =
  files :: "string list"

text \<open>The loop over \<^verbatim>\<open>inst.OrphanedFiles\<close>; \<open>Inl\<close> is the early \<^verbatim>\<open>return value, err\<close>.\<close>

fun unify_orphaned :: "('v, 'i, 'a, 'w, 'm) engine_scheme \<Rightarrow> 'v \<Rightarrow> build_File list \<Rightarrow> error + 'v" where
  "unify_orphaned e v [] = Inr v"
| "unify_orphaned e v (f # fs) =
     (if Encoding f = build_YAML then
        (case yaml_Extract e (Filename f) (Source f) of
           Inl err \<Rightarrow> Inl err
         | Inr a \<Rightarrow> unify_orphaned e (cue_Unify e v (ctx_BuildFile e a)) fs)
      else unify_orphaned e v fs)"

text \<open>
  The two checks after the loop. \<^verbatim>\<open>Build\<close> calls \<^verbatim>\<open>v.Err()\<close> once to test it and once more
  to return it; \<open>cue_Err\<close> is a function, so both calls give the same error.
\<close>

definition check_value :: "('v, 'm) cue_scheme \<Rightarrow> 'v \<Rightarrow> error + 'v" where
  "check_value c v =
     (case cue_Err c v of
        Some err \<Rightarrow> Inl err
      | None \<Rightarrow>
          (case cue_Validate c v of
             Some err \<Rightarrow> Inl err
           | None \<Rightarrow> Inr v))"

definition Build :: "('v, 'i, 'a, 'w, 'm) engine_scheme \<Rightarrow> BundleBuilder \<Rightarrow> 'w \<Rightarrow> error + 'v" where
  "Build e b w =
     (case load_Instances e (files b) w of
        [] \<Rightarrow> Inl (ErrorString ''no instances found'')
      | inst # ix \<Rightarrow>
          (case Err inst of
             Some err \<Rightarrow> Inl (Errorf_w ''instance error: '' (Err inst))
           | None \<Rightarrow>
               (case unify_orphaned e (ctx_BuildInstance e inst) (OrphanedFiles inst) of
                  Inl err \<Rightarrow> Inl err
                | Inr v \<Rightarrow> check_value e v)))"

section \<open>InitWorkspace\<close>

text \<open>\<^verbatim>\<open>fmt.Sprintf("%v", i)\<close> for an index: its decimal digits.\<close>

fun itoa :: "nat \<Rightarrow> string" where
  "itoa n = (if n < 10 then [''0123456789'' ! n] else itoa (n div 10) @ [''0123456789'' ! (n mod 10)])"

declare itoa.simps [simp del]

text \<open>
  \<^verbatim>\<open>filepath.Split\<close> with the separator \<^verbatim>\<open>/\<close>: the path is cut right after its last
  separator; without a separator the directory is empty.
\<close>

definition filepath_Split :: "string \<Rightarrow> string \<times> string" where
  "filepath_Split path =
     (let fn = rev (takeWhile (\<lambda>c. c \<noteq> CHR ''/'') (rev path))
      in (take (length path - length fn) path, fn))"

text \<open>
  What \<^verbatim>\<open>InitWorkspace\<close> calls outside the builder, over file-system states \<open>'w\<close>:
  \<^item> \<open>filepath_Join dir name\<close> is \<^verbatim>\<open>filepath.Join(dir, name)\<close>;
  \<^item> \<open>cp_Copy src dst w\<close> is \<^verbatim>\<open>cp.Copy(src, dst)\<close>: its error and the state it leaves;
  \<^item> \<open>injector_Inject f w\<close> is \<^verbatim>\<open>b.injector.Inject(f)\<close>, which reads \<open>f\<close>: the rewritten
    text, or its error;
  \<^item> \<open>os_WriteFile f data w\<close> is \<^verbatim>\<open>os.WriteFile(f, data, os.ModePerm)\<close>.
\<close>

record 'w os =
  filepath_Join :: "string \<Rightarrow> string \<Rightarrow> string"
  cp_Copy :: "string \<Rightarrow> string \<Rightarrow> 'w \<Rightarrow> error option \<times> 'w"
  injector_Inject :: "string \<Rightarrow> 'w \<Rightarrow> error + string"
  os_WriteFile :: "string \<Rightarrow> string \<Rightarrow> 'w \<Rightarrow> error option \<times> 'w"

text \<open>\<^verbatim>\<open>filepath.Join(workspace, fmt.Sprintf("%v.%s", i, fn))\<close>.\<close>

definition dstFile :: "'w os \<Rightarrow> string \<Rightarrow> nat \<Rightarrow> string \<Rightarrow> string" where
  "dstFile sys workspace i file =
     (let fn = snd (filepath_Split file)
      in filepath_Join sys workspace (itoa i @ ''.'' @ fn))"

text \<open>
  The first loop, \<^verbatim>\<open>for i, file := range b.files\<close>: \<open>i\<close> is the index reached, \<open>staged\<close> the
  local slice \<^verbatim>\<open>files\<close> so far. The destination is appended before the copy is tried.
\<close>

fun copy_files :: "'w os \<Rightarrow> string \<Rightarrow> nat \<Rightarrow> string list \<Rightarrow> string list \<Rightarrow> 'w \<Rightarrow>
    (error + string list) \<times> 'w" where
  "copy_files sys workspace i [] staged w = (Inr staged, w)"
| "copy_files sys workspace i (file # rest) staged w =
     (let dst = dstFile sys workspace i file;
          staged' = staged @ [dst]
      in case cp_Copy sys file dst w of
           (Some err, w') \<Rightarrow> (Inl err, w')
         | (None, w') \<Rightarrow> copy_files sys workspace (i + 1) rest staged' w')"

text \<open>The second loop, \<^verbatim>\<open>for _, f := range files\<close>: inject, then write the text back.\<close>

fun inject_files :: "'w os \<Rightarrow> string list \<Rightarrow> 'w \<Rightarrow> error option \<times> 'w" where
  "inject_files sys [] w = (None, w)"
| "inject_files sys (f # rest) w =
     (let fn = snd (filepath_Split f) in
      case injector_Inject sys f w of
        Inl err \<Rightarrow> (Some (Errorf_w (''failed to inject '' @ fn @ '': '') (Some err)), w)
      | Inr data \<Rightarrow>
          (case os_WriteFile sys f data w of
             (Some err, w') \<Rightarrow> (Some (Errorf_w (''failed to inject '' @ fn @ '': '') (Some err)), w')
           | (None, w') \<Rightarrow> inject_files sys rest w'))"

text \<open>
  \<^verbatim>\<open>InitWorkspace\<close> returns its error, the builder as the call leaves it and the file-system
  state. \<^verbatim>\<open>b.files\<close> is assigned in the last statement only.
\<close>

definition InitWorkspace :: "apiv1 \<Rightarrow> 'w os \<Rightarrow> BundleBuilder \<Rightarrow> string \<Rightarrow> 'w \<Rightarrow>
    error option \<times> BundleBuilder \<times> 'w" where
  "InitWorkspace api sys b workspace w =
     (case copy_files sys workspace 0 (files b) [] w of
        (Inl err, w1) \<Rightarrow> (Some err, b, w1)
      | (Inr staged, w1) \<Rightarrow>
          (case inject_files sys staged w1 of
             (Some err, w2) \<Rightarrow> (Some err, b, w2)
           | (None, w2) \<Rightarrow>
               (let schemaFile =
                      filepath_Join sys workspace (itoa (length (files b) + 1) @ ''.schema.cue'');
                    staged' = staged @ [schemaFile]
                in case os_WriteFile sys schemaFile (BundleSchema api) w2 of
                     (Some err, w3) \<Rightarrow> (Some err, b, w3)
                   | (None, w3) \<Rightarrow> (None, b\<lparr>files := staged'\<rparr>, w3))))"

section \<open>Runs of Build over an engine that need not be a function\<close>

text \<open>
  To speak about two runs of \<^verbatim>\<open>Build\<close>, each call into the engine is a relation between
  the arguments and a possible answer, and a run of \<^verbatim>\<open>Build\<close> is derived rule by rule,
  statement by statement. The outcome \<open>Inl err\<close> is \<^verbatim>\<open>return value, err\<close>; \<^verbatim>\<open>Build\<close> calls
  \<^verbatim>\<open>v.Err()\<close> twice, to test it and to return it, so \<open>err\<close> is the answer of the second
  call and may be \<^verbatim>\<open>nil\<close>.
\<close>

record ('v, 'i, 'a, 'w) engine_rel =
  rel_Instances :: "string list \<Rightarrow> 'w \<Rightarrow> 'i build_Instance_scheme list \<Rightarrow> bool"
  rel_BuildInstance :: "'i build_Instance_scheme \<Rightarrow> 'v \<Rightarrow> bool"
  rel_Extract :: "string \<Rightarrow> string \<Rightarrow> error + 'a \<Rightarrow> bool"
  rel_BuildFile :: "'a \<Rightarrow> 'v \<Rightarrow> bool"
  rel_Unify :: "'v \<Rightarrow> 'v \<Rightarrow> 'v \<Rightarrow> bool"
  rel_Err :: "'v \<Rightarrow> error option \<Rightarrow> bool"
  rel_Validate :: "'v \<Rightarrow> error option \<Rightarrow> bool"

inductive unify_orphaned_run ::
    "('v, 'i, 'a, 'w) engine_rel \<Rightarrow> 'v \<Rightarrow> build_File list \<Rightarrow> error + 'v \<Rightarrow> bool"
  for R :: "('v, 'i, 'a, 'w) engine_rel" where
  run_done: "unify_orphaned_run R v [] (Inr v)"
| run_skip: "Encoding f \<noteq> build_YAML \<Longrightarrow> unify_orphaned_run R v fs r \<Longrightarrow>
     unify_orphaned_run R v (f # fs) r"
| run_extract_error: "Encoding f = build_YAML \<Longrightarrow>
     rel_Extract R (Filename f) (Source f) (Inl err) \<Longrightarrow>
     unify_orphaned_run R v (f # fs) (Inl err)"
| run_unify: "Encoding f = build_YAML \<Longrightarrow>
     rel_Extract R (Filename f) (Source f) (Inr a) \<Longrightarrow>
     rel_BuildFile R a u \<Longrightarrow> rel_Unify R v u v' \<Longrightarrow>
     unify_orphaned_run R v' fs r \<Longrightarrow>
     unify_orphaned_run R v (f # fs) r"

inductive Build_run ::
    "('v, 'i, 'a, 'w) engine_rel \<Rightarrow> BundleBuilder \<Rightarrow> 'w \<Rightarrow> error option + 'v \<Rightarrow> bool"
  for R :: "('v, 'i, 'a, 'w) engine_rel" and b :: BundleBuilder and w :: 'w where
  run_no_instances: "rel_Instances R (files b) w [] \<Longrightarrow>
     Build_run R b w (Inl (Some (ErrorString ''no instances found'')))"
| run_instance_error: "rel_Instances R (files b) w (inst # ix) \<Longrightarrow> Err inst = Some err \<Longrightarrow>
     Build_run R b w (Inl (Some (Errorf_w ''instance error: '' (Err inst))))"
| run_orphaned_error: "rel_Instances R (files b) w (inst # ix) \<Longrightarrow> Err inst = None \<Longrightarrow>
     rel_BuildInstance R inst v0 \<Longrightarrow>
     unify_orphaned_run R v0 (OrphanedFiles inst) (Inl err) \<Longrightarrow>
     Build_run R b w (Inl (Some err))"
| run_value_error: "rel_Instances R (files b) w (inst # ix) \<Longrightarrow> Err inst = None \<Longrightarrow>
     rel_BuildInstance R inst v0 \<Longrightarrow>
     unify_orphaned_run R v0 (OrphanedFiles inst) (Inr v) \<Longrightarrow>
     rel_Err R v (Some err) \<Longrightarrow> rel_Err R v err' \<Longrightarrow>
     Build_run R b w (Inl err')"
| run_not_concrete: "rel_Instances R (files b) w (inst # ix) \<Longrightarrow> Err inst = None \<Longrightarrow>
     rel_BuildInstance R inst v0 \<Longrightarrow>
     unify_orphaned_run R v0 (OrphanedFiles inst) (Inr v) \<Longrightarrow>
     rel_Err R v None \<Longrightarrow> rel_Validate R v (Some err) \<Longrightarrow>
     Build_run R b w (Inl (Some err))"
| run_value: "rel_Instances R (files b) w (inst # ix) \<Longrightarrow> Err inst = None \<Longrightarrow>
     rel_BuildInstance R inst v0 \<Longrightarrow>
     unify_orphaned_run R v0 (OrphanedFiles inst) (Inr v) \<Longrightarrow>
     rel_Err R v None \<Longrightarrow> rel_Validate R v None \<Longrightarrow>
     Build_run R b w (Inr v)"

code_pred unify_orphaned_run .

code_pred Build_run .

text \<open>An engine is deterministic when each call has at most one answer.\<close>

definition deterministic :: "('v, 'i, 'a, 'w) engine_rel \<Rightarrow> bool" where
  "deterministic R \<longleftrightarrow>
     (\<forall>fs w x y. rel_Instances R fs w x \<longrightarrow> rel_Instances R fs w y \<longrightarrow> x = y) \<and>
     (\<forall>i x y. rel_BuildInstance R i x \<longrightarrow> rel_BuildInstance R i y \<longrightarrow> x = y) \<and>
     (\<forall>n s x y. rel_Extract R n s x \<longrightarrow> rel_Extract R n s y \<longrightarrow> x = y) \<and>
     (\<forall>a x y. rel_BuildFile R a x \<longrightarrow> rel_BuildFile R a y \<longrightarrow> x = y) \<and>
     (\<forall>u v x y. rel_Unify R u v x \<longrightarrow> rel_Unify R u v y \<longrightarrow> x = y) \<and>
     (\<forall>v x y. rel_Err R v x \<longrightarrow> rel_Err R v y \<longrightarrow> x = y) \<and>
     (\<forall>v x y. rel_Validate R v x \<longrightarrow> rel_Validate R v y \<longrightarrow> x = y)"

text \<open>The engine of functions, seen as an engine of relations.\<close>

definition rel_of :: "('v, 'i, 'a, 'w, 'm) engine_scheme \<Rightarrow> ('v, 'i, 'a, 'w) engine_rel" where
  "rel_of e =
     \<lparr> rel_Instances = (\<lambda>fs w x. x = load_Instances e fs w),
       rel_BuildInstance = (\<lambda>i x. x = ctx_BuildInstance e i),
       rel_Extract = (\<lambda>n s x. x = yaml_Extract e n s),
       rel_BuildFile = (\<lambda>a x. x = ctx_BuildFile e a),
       rel_Unify = (\<lambda>u v x. x = cue_Unify e u v),
       rel_Err = (\<lambda>v x. x = cue_Err e v),
       rel_Validate = (\<lambda>v x. x = cue_Validate e v) \<rparr>"

section \<open>Unification of partial specifications\<close>

text \<open>
  The engine's values, as the specification describes them: a value is a partial
  specification, either unconstrained, a concrete scalar, or a structured document that
  maps keys to values (an association list, read with \<open>map_of\<close>).
\<close>

datatype scalar = Str string | Num int | Bool bool

datatype val = Any | Scalar scalar | Doc "(string \<times> val) list"

text \<open>The value a document gives at a path of keys, if it has one.\<close>

fun value_at :: "val \<Rightarrow> string list \<Rightarrow> val option" where
  "value_at v [] = Some v"
| "value_at (Doc xs) (k # ks) = (case map_of xs k of None \<Rightarrow> None | Some x \<Rightarrow> value_at x ks)"
| "value_at v (k # ks) = None"

text \<open>Two results, each a list of conflicts or a value: the conflicts of both, or both values.\<close>

fun both :: "'c list + 'a \<Rightarrow> 'c list + 'b \<Rightarrow> 'c list + ('a \<times> 'b)" where
  "both (Inl c) (Inl d) = Inl (c @ d)"
| "both (Inl c) (Inr b) = Inl c"
| "both (Inr a) (Inl d) = Inl d"
| "both (Inr a) (Inr b) = Inr (a, b)"

text \<open>
  Modelled from the spec: the unification operation of the evaluation engine, which the
  builder calls as \<^verbatim>\<open>v.Unify\<close> and whose code is not part of the repository. Equal scalars
  unify to that scalar; unequal concrete scalars are a conflict; documents unify
  recursively per matching key, and a key present in only one side passes through
  unchanged; an unconstrained value is narrowed to the other side. \<open>unify_at p\<close> unifies two
  values found at the path \<open>p\<close>; \<open>Inl\<close> is the conflict error, the full paths of the
  conflicting fields.
\<close>

fun unify_at :: "string list \<Rightarrow> val \<Rightarrow> val \<Rightarrow> string list list + val"
  and unify_fields :: "string list \<Rightarrow> (string \<times> val) list \<Rightarrow> (string \<times> val) list \<Rightarrow>
      string list list + (string \<times> val) list" where
  "unify_at p Any v = Inr v"
| "unify_at p (Scalar a) Any = Inr (Scalar a)"
| "unify_at p (Scalar a) (Scalar b) = (if a = b then Inr (Scalar a) else Inl [p])"
| "unify_at p (Scalar a) (Doc ys) = Inl [p]"
| "unify_at p (Doc xs) Any = Inr (Doc xs)"
| "unify_at p (Doc xs) (Scalar b) = Inl [p]"
| "unify_at p (Doc xs) (Doc ys) =
     (case unify_fields p xs ys of
        Inl c \<Rightarrow> Inl c
      | Inr zs \<Rightarrow> Inr (Doc (zs @ filter (\<lambda>(k, y). map_of xs k = None) ys)))"
| "unify_fields p [] ys = Inr []"
| "unify_fields p ((k, x) # xs) ys =
     (case both (case map_of ys k of None \<Rightarrow> Inr x | Some y \<Rightarrow> unify_at (p @ [k]) x y)
                (unify_fields p xs ys) of
        Inl c \<Rightarrow> Inl c
      | Inr (z, zs) \<Rightarrow> Inr ((k, z) # zs))"

text \<open>Modelled from the spec: \<^verbatim>\<open>merge(Value, Value) -> Value | ConflictError\<close>, at the root.\<close>

definition unify :: "val \<Rightarrow> val \<Rightarrow> string list list + val" where
  "unify a b = unify_at [] a b"

section \<open>A small engine and file system for closed examples\<close>

text \<open>
  The theorems about the builder hold for every engine and every file system. The closed
  examples need one of each to run on. The engine below has the values of the previous
  section and a bottom value that carries its error; its operations follow the interface
  the specification lists for the evaluation engine. The file system is an association
  list from paths to texts.
\<close>

datatype tvalue = Value val | Bottom error

fun dotted :: "string list \<Rightarrow> string" where
  "dotted [] = []"
| "dotted [k] = k"
| "dotted (k # ks) = k @ ''.'' @ dotted ks"

text \<open>A dotted path, cut at its dots.\<close>

fun split_dots :: "string \<Rightarrow> string \<Rightarrow> string list" where
  "split_dots cur [] = [cur]"
| "split_dots cur (c # cs) =
     (if c = CHR ''.'' then cur # split_dots [] cs else split_dots (cur @ [c]) cs)"

definition ParsePath :: "string \<Rightarrow> string list" where
  "ParsePath s = split_dots [] s"

text \<open>The paths of the fields that are still unconstrained, in document order.\<close>

fun unresolved :: "string list \<Rightarrow> val \<Rightarrow> string list list"
  and unresolved_fields :: "string list \<Rightarrow> (string \<times> val) list \<Rightarrow> string list list" where
  "unresolved p Any = [p]"
| "unresolved p (Scalar a) = []"
| "unresolved p (Doc xs) = unresolved_fields p xs"
| "unresolved_fields p [] = []"
| "unresolved_fields p ((k, x) # xs) = unresolved (p @ [k]) x @ unresolved_fields p xs"

fun ref_LookupPath :: "tvalue \<Rightarrow> string \<Rightarrow> tvalue" where
  "ref_LookupPath (Bottom err) path = Bottom err"
| "ref_LookupPath (Value v) path =
     (case value_at v (ParsePath path) of
        None \<Rightarrow> Bottom (ErrorString (''field not found: '' @ path))
      | Some x \<Rightarrow> Value x)"

fun ref_String :: "tvalue \<Rightarrow> error + string" where
  "ref_String (Bottom err) = Inl err"
| "ref_String (Value (Scalar (Str s))) = Inr s"
| "ref_String (Value Any) = Inl (ErrorString ''non-concrete value string'')"
| "ref_String (Value v) = Inl (ErrorString ''cannot use value as string'')"

fun ref_Err :: "tvalue \<Rightarrow> error option" where
  "ref_Err (Bottom err) = Some err"
| "ref_Err (Value v) = None"

fun ref_Fields :: "tvalue \<Rightarrow> error + (string \<times> tvalue) list" where
  "ref_Fields (Bottom err) = Inl err"
| "ref_Fields (Value (Doc xs)) = Inr (map (\<lambda>(k, x). (k, Value x)) xs)"
| "ref_Fields (Value v) = Inl (ErrorString ''cannot range over value: not a struct'')"

text \<open>
  The selector of a key prints as the key itself when the key is an identifier of the
  configuration language (letters, digits, \<^verbatim>\<open>_\<close> and \<^verbatim>\<open>$\<close>, not starting with a digit or
  \<^verbatim>\<open>_\<close>), and as the key in double quotes otherwise.
\<close>

definition is_ident :: "string \<Rightarrow> bool" where
  "is_ident k \<longleftrightarrow>
     k \<noteq> [] \<and>
     hd k \<in> set ''abcdefghijklmnopqrstuvwxyzABCDEFGHIJKLMNOPQRSTUVWXYZ$'' \<and>
     set k \<subseteq> set ''abcdefghijklmnopqrstuvwxyzABCDEFGHIJKLMNOPQRSTUVWXYZ0123456789_$''"

definition ref_Selector_String :: "string \<Rightarrow> string" where
  "ref_Selector_String k = (if is_ident k then k else CHR 0x22 # k @ [CHR 0x22])"

fun ref_Unify :: "tvalue \<Rightarrow> tvalue \<Rightarrow> tvalue" where
  "ref_Unify (Bottom err) u = Bottom err"
| "ref_Unify (Value a) (Bottom err) = Bottom err"
| "ref_Unify (Value a) (Value b) =
     (case unify a b of
        Inl ps \<Rightarrow> Bottom (ErrorString (dotted (hd ps) @ '': conflicting values''))
      | Inr c \<Rightarrow> Value c)"

fun ref_Validate :: "tvalue \<Rightarrow> error option" where
  "ref_Validate (Bottom err) = Some err"
| "ref_Validate (Value v) =
     (case unresolved [] v of
        [] \<Rightarrow> None
      | p # ps \<Rightarrow> Some (ErrorString (dotted p @ '': incomplete value'')))"

text \<open>
  The texts the small engine reads have one line, \<^verbatim>\<open>path: text\<close>, where the text \<^verbatim>\<open>_\<close>
  leaves the field unconstrained.
\<close>

fun at_path :: "string list \<Rightarrow> val \<Rightarrow> val" where
  "at_path [] v = v"
| "at_path (k # ks) v = Doc [(k, at_path ks v)]"

definition parse_doc :: "string \<Rightarrow> string \<Rightarrow> error + val" where
  "parse_doc filename source =
     (let key = takeWhile (\<lambda>c. c \<noteq> CHR '':'') source;
          rest = dropWhile (\<lambda>c. c \<noteq> CHR '':'') source
      in if take 2 rest = '': ''
         then Inr (at_path (ParsePath key)
                (if drop 2 rest = ''_'' then Any else Scalar (Str (drop 2 rest))))
         else Inl (ErrorString (filename @ '': syntax error'')))"

text \<open>The encoding of a file is read off its extension.\<close>

definition extension :: "string \<Rightarrow> string" where
  "extension f = rev (takeWhile (\<lambda>c. c \<noteq> CHR ''.'') (rev f))"

type_synonym fs = "(string \<times> string) list"

fun read_files :: "fs \<Rightarrow> string list \<Rightarrow> error + build_File list" where
  "read_files w [] = Inr []"
| "read_files w (f # rest) =
     (case map_of w f of
        None \<Rightarrow> Inl (ErrorString (''open '' @ f @ '': no such file or directory''))
      | Some source \<Rightarrow>
          (case read_files w rest of
             Inl err \<Rightarrow> Inl err
           | Inr fs \<Rightarrow> Inr (\<lparr> Filename = f, Encoding = extension f, Source = source \<rparr> # fs)))"

text \<open>
  Loading gives one instance. Its files in the configuration language are parsed, and
  the instance carries their values; every other file is orphaned.
\<close>

fun parse_all :: "build_File list \<Rightarrow> error + val list" where
  "parse_all [] = Inr []"
| "parse_all (f # rest) =
     (case parse_doc (Filename f) (Source f) of
        Inl err \<Rightarrow> Inl err
      | Inr d \<Rightarrow> (case parse_all rest of Inl err \<Rightarrow> Inl err | Inr ds \<Rightarrow> Inr (d # ds)))"

definition ref_Instances :: "string list \<Rightarrow> fs \<Rightarrow> val list build_Instance_scheme list" where
  "ref_Instances fnames w =
     (if fnames = [] then []
      else case read_files w fnames of
        Inl err \<Rightarrow> [\<lparr> Err = Some err, OrphanedFiles = [], \<dots> = [] \<rparr>]
      | Inr fs \<Rightarrow>
          (case parse_all (filter (\<lambda>f. Encoding f = ''cue'') fs) of
             Inl err \<Rightarrow> [\<lparr> Err = Some err, OrphanedFiles = [], \<dots> = [] \<rparr>]
           | Inr ds \<Rightarrow>
               [\<lparr> Err = None,
                  OrphanedFiles = filter (\<lambda>f. Encoding f \<noteq> ''cue'') fs,
                  \<dots> = ds \<rparr>]))"

definition ref_BuildInstance :: "val list build_Instance_scheme \<Rightarrow> tvalue" where
  "ref_BuildInstance inst = foldl (\<lambda>v d. ref_Unify v (Value d)) (Value Any) (build_Instance.more inst)"

definition ref_engine :: "(tvalue, val list, val, fs) engine" where
  "ref_engine =
     \<lparr> cue_LookupPath = ref_LookupPath,
       cue_String = ref_String,
       cue_Err = ref_Err,
       cue_Fields = ref_Fields,
       cue_Selector_String = ref_Selector_String,
       cue_Unify = ref_Unify,
       cue_Validate = ref_Validate,
       load_Instances = ref_Instances,
       ctx_BuildInstance = ref_BuildInstance,
       yaml_Extract = parse_doc,
       ctx_BuildFile = Value \<rparr>"

text \<open>
  The small file system: a copy fails when the source is missing; the injector returns the
  text as it is, and fails on a text that starts with \<^verbatim>\<open>@\<close> (a marker it cannot resolve);
  a write always succeeds and replaces the text.
\<close>

definition ref_Copy :: "string \<Rightarrow> string \<Rightarrow> fs \<Rightarrow> error option \<times> fs" where
  "ref_Copy src dst w =
     (case map_of w src of
        None \<Rightarrow> (Some (ErrorString (''open '' @ src @ '': no such file or directory'')), w)
      | Some text \<Rightarrow> (None, (dst, text) # w))"

definition ref_Inject :: "string \<Rightarrow> fs \<Rightarrow> error + string" where
  "ref_Inject f w =
     (case map_of w f of
        None \<Rightarrow> Inl (ErrorString (''open '' @ f @ '': no such file or directory''))
      | Some text \<Rightarrow>
          if take 1 text = ''@'' then Inl (ErrorString (''cannot resolve '' @ text))
          else Inr text)"

definition ref_os :: "fs os" where
  "ref_os =
     \<lparr> filepath_Join = (\<lambda>dir name. dir @ ''/'' @ name),
       cp_Copy = ref_Copy,
       injector_Inject = ref_Inject,
       os_WriteFile = (\<lambda>f data w. (None, (f, data) # w)) \<rparr>"

text \<open>The selectors and the schema text of the examples.\<close>

definition ref_api :: apiv1 where
  "ref_api =
     \<lparr> BundleSchema = ''bundle.name: _'',
       BundleName = ''bundle.name'',
       BundleInstancesSelector = ''bundle.instances'',
       BundleModuleURLSelector = ''module.url'',
       BundleModuleDigestSelector = ''module.digest'',
       BundleModuleVersionSelector = ''module.version'',
       BundleNamespaceSelector = ''namespace'',
       BundleValuesSelector = ''values'' \<rparr>"


text \<open>
  The tree of the examples: a bundle \<open>b\<close> with the instance \<open>app\<close>, which has a module URL, a
  version and a namespace, and the instance \<open>db\<close>, which has a digest and values only.
\<close>

definition entry_app :: val where
  "entry_app = Doc [(''module'', Doc [(''url'', Scalar (Str ''oci://x'')),
                                      (''version'', Scalar (Str ''1.0''))]),
                    (''namespace'', Scalar (Str ''ns''))]"

definition entry_db :: val where
  "entry_db = Doc [(''module'', Doc [(''digest'', Scalar (Str ''sha''))]), (''values'', Doc [])]"

definition tree_db :: tvalue where
  "tree_db = Value (Doc [(''bundle'', Doc [(''name'', Scalar (Str ''b'')),
     (''instances'', Doc [(''db'', entry_db)])])])"

text \<open>A bundle whose instance is named with a dash, as Kubernetes names are.\<close>

definition tree_dash :: tvalue where
  "tree_dash = Value (Doc [(''bundle'', Doc [(''name'', Scalar (Str ''b'')),
     (''instances'', Doc [(''my-app'', entry_app)])])])"

definition tree0 :: tvalue where
  "tree0 = Value (Doc [(''bundle'', Doc [(''name'', Scalar (Str ''b'')),
     (''instances'', Doc [(''app'', entry_app), (''db'', entry_db)])])])"

text \<open>
  The workspaces of the examples. \<open>staged_fs\<close> holds a bundle file, a YAML override, a
  text file and the schema; \<open>schema_fs\<close> holds the schema alone, which leaves the bundle
  name unconstrained.
\<close>

definition staged_fs :: fs where
  "staged_fs =
     [(''ws/0.bundle.cue'', ''bundle.name: podinfo''),
      (''ws/1.values.yaml'', ''bundle.tier: prod''),
      (''ws/2.notes.txt'', ''hello''),
      (''ws/4.schema.cue'', ''bundle.name: _'')]"

definition staged_builder :: BundleBuilder where
  "staged_builder =
     \<lparr> files = [''ws/0.bundle.cue'', ''ws/1.values.yaml'', ''ws/2.notes.txt'', ''ws/4.schema.cue''] \<rparr>"

definition staged_instance :: "val list build_Instance_scheme" where
  "staged_instance =
     \<lparr> Err = None,
       OrphanedFiles =
         [\<lparr> Filename = ''ws/1.values.yaml'', Encoding = ''yaml'', Source = ''bundle.tier: prod'' \<rparr>,
          \<lparr> Filename = ''ws/2.notes.txt'', Encoding = ''txt'', Source = ''hello'' \<rparr>],
       \<dots> = [Doc [(''bundle'', Doc [(''name'', Scalar (Str ''podinfo''))])],
              Doc [(''bundle'', Doc [(''name'', Any)])]] \<rparr>"

definition staged_value :: tvalue where
  "staged_value =
     Value (Doc [(''bundle'', Doc [(''name'', Scalar (Str ''podinfo'')),
                                   (''tier'', Scalar (Str ''prod''))])])"

definition schema_fs :: fs where
  "schema_fs = [(''ws/1.schema.cue'', ''bundle.name: _'')]"

definition schema_builder :: BundleBuilder where
  "schema_builder = \<lparr> files = [''ws/1.schema.cue''] \<rparr>"

definition schema_instance :: "val list build_Instance_scheme" where
  "schema_instance =
     \<lparr> Err = None, OrphanedFiles = [], \<dots> = [Doc [(''bundle'', Doc [(''name'', Any)])]] \<rparr>"

definition schema_value :: tvalue where
  "schema_value = Value (Doc [(''bundle'', Doc [(''name'', Any)])])"

text \<open>The staged workspace without its text file.\<close>

definition yaml_fs :: fs where
  "yaml_fs =
     [(''ws/0.bundle.cue'', ''bundle.name: podinfo''),
      (''ws/1.values.yaml'', ''bundle.tier: prod''),
      (''ws/4.schema.cue'', ''bundle.name: _'')]"

definition yaml_builder :: BundleBuilder where
  "yaml_builder = \<lparr> files = [''ws/0.bundle.cue'', ''ws/1.values.yaml'', ''ws/4.schema.cue''] \<rparr>"

definition yaml_instance :: "val list build_Instance_scheme" where
  "yaml_instance =
     \<lparr> Err = None,
       OrphanedFiles =
         [\<lparr> Filename = ''ws/1.values.yaml'', Encoding = ''yaml'', Source = ''bundle.tier: prod'' \<rparr>],
       \<dots> = [Doc [(''bundle'', Doc [(''name'', Scalar (Str ''podinfo''))])],
              Doc [(''bundle'', Doc [(''name'', Any)])]] \<rparr>"

text \<open>
  The sources of the examples: three files in three directories, and the file system
  that \<^verbatim>\<open>InitWorkspace\<close> leaves when it stages them in the workspace \<^verbatim>\<open>ws\<close>.
\<close>

definition src_fs :: fs where
  "src_fs =
     [(''src/bundle.cue'', ''bundle.name: podinfo''),
      (''over/values.yaml'', ''bundle.tier: prod''),
      (''notes.txt'', ''hello'')]"

definition src_builder :: BundleBuilder where
  "src_builder = \<lparr> files = [''src/bundle.cue'', ''over/values.yaml'', ''notes.txt''] \<rparr>"

definition init_fs :: fs where
  "init_fs =
     [(''ws/4.schema.cue'', ''bundle.name: _''),
      (''ws/2.notes.txt'', ''hello''),
      (''ws/1.values.yaml'', ''bundle.tier: prod''),
      (''ws/0.bundle.cue'', ''bundle.name: podinfo''),
      (''ws/2.notes.txt'', ''hello''),
      (''ws/1.values.yaml'', ''bundle.tier: prod''),
      (''ws/0.bundle.cue'', ''bundle.name: podinfo'')] @ src_fs"

text \<open>A builder whose second source file does not exist.\<close>

definition missing_builder :: BundleBuilder where
  "missing_builder = \<lparr> files = [''src/bundle.cue'', ''missing.yaml''] \<rparr>"

text \<open>
  An error wraps a cause with a contextual identifier when it unwraps to the cause and
  its message contains the identifier and ends with the message of the cause.
\<close>

definition wraps :: "string \<Rightarrow> error \<Rightarrow> error \<Rightarrow> bool" where
  "wraps ident cause err \<longleftrightarrow>
     Unwrap err = Some cause \<and> sublist ident (Error err) \<and> suffix (Error cause) (Error err)"

text \<open>
  Examples of failing steps: a source whose text is a marker the injector cannot resolve;
  a builder whose file is not in the workspace; a YAML override that does not parse; a
  YAML override that conflicts with the bundle file.
\<close>

definition marker_fs :: fs where
  "marker_fs = [(''src/env.cue'', ''@timoni(runtime:string:TOKEN)'')]"

definition marker_builder :: BundleBuilder where
  "marker_builder = \<lparr> files = [''src/env.cue''] \<rparr>"

definition absent_builder :: BundleBuilder where
  "absent_builder = \<lparr> files = [''ws/0.absent.cue''] \<rparr>"

definition absent_instance :: "val list build_Instance_scheme" where
  "absent_instance =
     \<lparr> Err = Some (ErrorString ''open ws/0.absent.cue: no such file or directory''),
       OrphanedFiles = [], \<dots> = [] \<rparr>"

definition broken_fs :: fs where
  "broken_fs = [(''ws/0.broken.yaml'', ''nonsense'')]"

definition broken_builder :: BundleBuilder where
  "broken_builder = \<lparr> files = [''ws/0.broken.yaml''] \<rparr>"

definition broken_file :: build_File where
  "broken_file = \<lparr> Filename = ''ws/0.broken.yaml'', Encoding = ''yaml'', Source = ''nonsense'' \<rparr>"

definition broken_instance :: "val list build_Instance_scheme" where
  "broken_instance = \<lparr> Err = None, OrphanedFiles = [broken_file], \<dots> = [] \<rparr>"

definition conflict_fs :: fs where
  "conflict_fs =
     [(''ws/0.bundle.cue'', ''client.enabled: true''),
      (''ws/1.values.yaml'', ''client.enabled: false'')]"

definition conflict_builder :: BundleBuilder where
  "conflict_builder = \<lparr> files = [''ws/0.bundle.cue'', ''ws/1.values.yaml''] \<rparr>"

definition conflict_instance :: "val list build_Instance_scheme" where
  "conflict_instance =
     \<lparr> Err = None,
       OrphanedFiles =
         [\<lparr> Filename = ''ws/1.values.yaml'', Encoding = ''yaml'',
            Source = ''client.enabled: false'' \<rparr>],
       \<dots> = [Doc [(''client'', Doc [(''enabled'', Scalar (Str ''true''))])]] \<rparr>"

text \<open>Two override documents that set the same field to different scalars.\<close>

definition doc_true :: val where
  "doc_true = Doc [(''client'', Doc [(''enabled'', Scalar (Bool True))])]"

definition doc_false :: val where
  "doc_false =
     Doc [(''server'', Scalar (Str ''tcp://example.io:9090'')),
          (''client'', Doc [(''enabled'', Scalar (Bool False))])]"

text \<open>A document that leaves the field unconstrained, and one that does not mention it.\<close>

definition doc_open :: val where
  "doc_open = Doc [(''client'', Doc [(''enabled'', Any)])]"

definition doc_server :: val where
  "doc_server = Doc [(''server'', Scalar (Str ''tcp://example.io:9090''))]"

section \<open>Properties of GetBundle\<close>

lemma collect_append:
  "collect api c n entries list = list @ map (instance_of api c n) entries"
  by (induction entries arbitrary: list) simp_all

lemma GetBundle_Inr:
  assumes "cue_String c (cue_LookupPath c v (BundleName api)) = Inr n"
    and "cue_Err c (cue_LookupPath c v (BundleInstancesSelector api)) = None"
    and "cue_Fields c (cue_LookupPath c v (BundleInstancesSelector api)) = Inr entries"
  shows "GetBundle api c v =
    Inr \<lparr> Bundle.Name = n, Instances = map (instance_of api c n) entries \<rparr>"
  using assms by (simp add: GetBundle_def collect_append)

lemma GetBundle_InrD:
  assumes "GetBundle api c v = Inr b"
  shows "\<exists>n entries.
    cue_String c (cue_LookupPath c v (BundleName api)) = Inr n \<and>
    cue_Err c (cue_LookupPath c v (BundleInstancesSelector api)) = None \<and>
    cue_Fields c (cue_LookupPath c v (BundleInstancesSelector api)) = Inr entries \<and>
    b = \<lparr> Bundle.Name = n, Instances = map (instance_of api c n) entries \<rparr>"
  using assms
  by (auto simp: GetBundle_def Let_def collect_append split: sum.splits option.splits)

lemma instance_of_simps:
  "Bundle (instance_of api c n entry) = n"
  "BundleInstance.Name (instance_of api c n entry) = cue_Selector_String c (fst entry)"
  "Namespace (instance_of api c n entry) =
     String_or_empty c (cue_LookupPath c (snd entry) (BundleNamespaceSelector api))"
  "Repository (Module (instance_of api c n entry)) =
     String_or_empty c (cue_LookupPath c (snd entry) (BundleModuleURLSelector api))"
  "Version (Module (instance_of api c n entry)) =
     String_or_empty c (cue_LookupPath c (snd entry) (BundleModuleVersionSelector api))"
  "Digest (Module (instance_of api c n entry)) =
     String_or_empty c (cue_LookupPath c (snd entry) (BundleModuleDigestSelector api))"
  "Values (instance_of api c n entry) =
     cue_LookupPath c (snd entry) (BundleValuesSelector api)"
  by (simp_all add: instance_of_def Let_def)

lemma tree0_name:
  "cue_String ref_engine (cue_LookupPath ref_engine tree0 (BundleName ref_api)) = Inr ''b''"
  by (simp add: ref_engine_def ref_api_def tree0_def ParsePath_def)

lemma tree0_instances_Err:
  "cue_Err ref_engine (cue_LookupPath ref_engine tree0 (BundleInstancesSelector ref_api)) = None"
  by (simp add: ref_engine_def ref_api_def tree0_def ParsePath_def)

lemma tree0_Fields:
  "cue_Fields ref_engine (cue_LookupPath ref_engine tree0 (BundleInstancesSelector ref_api)) =
     Inr [(''app'', Value entry_app), (''db'', Value entry_db)]"
  by (simp add: ref_engine_def ref_api_def tree0_def ParsePath_def entry_app_def entry_db_def)

lemma tree0_GetBundle:
  "GetBundle ref_api ref_engine tree0 =
     Inr \<lparr> Bundle.Name = ''b'',
           Instances =
             [\<lparr> Bundle = ''b'', BundleInstance.Name = ''app'', Namespace = ''ns'',
                 Module = \<lparr> Repository = ''oci://x'', Version = ''1.0'', Digest = [] \<rparr>,
                 Values = Bottom (ErrorString ''field not found: values'') \<rparr>,
              \<lparr> Bundle = ''b'', BundleInstance.Name = ''db'', Namespace = [],
                 Module = \<lparr> Repository = [], Version = [], Digest = ''sha'' \<rparr>,
                 Values = Value (Doc []) \<rparr>] \<rparr>"
  unfolding GetBundle_Inr [OF tree0_name tree0_instances_Err tree0_Fields]
  by (simp add: instance_of_def String_or_empty_def ref_engine_def ref_api_def ParsePath_def
      entry_app_def entry_db_def ref_Selector_String_def is_ident_def)

text \<open>
  What holds of the instance list for every engine: on a tree whose bundle name and
  instances mapping are found and whose instances mapping iterates over N entries,
  GetBundle returns a Bundle with exactly N instance records, in iteration order, each
  named by \<^verbatim>\<open>String()\<close> of the selector of its entry's key.
\<close>

lemma GetBundle_instances_in_order:
  assumes "cue_String c (cue_LookupPath c v (BundleName api)) = Inr n"
    and "cue_Err c (cue_LookupPath c v (BundleInstancesSelector api)) = None"
    and "cue_Fields c (cue_LookupPath c v (BundleInstancesSelector api)) = Inr entries"
  shows "\<exists>b. GetBundle api c v = Inr b \<and>
    length (Instances b) = length entries \<and>
    map BundleInstance.Name (Instances b) =
      map (\<lambda>entry. cue_Selector_String c (fst entry)) entries"
  unfolding GetBundle_Inr [OF assms]
  by (simp add: instance_of_simps comp_def)

text \<open>
  C2. The Name of a record is not the key of its entry in general. \<^verbatim>\<open>GetBundle\<close> takes
  \<^verbatim>\<open>iter.Selector().String()\<close>, which writes a key that is not an identifier in double
  quotes. The tree \<open>tree_dash\<close> has one instance, with the key \<^verbatim>\<open>my-app\<close>; GetBundle returns
  one record for it, and its Name is the key with a double quote before and after.
\<close>

theorem GetBundle_quotes_instance_name:
  "cue_Fields ref_engine (cue_LookupPath ref_engine tree_dash (BundleInstancesSelector ref_api)) =
     Inr [(''my-app'', Value entry_app)] \<and>
   GetBundle ref_api ref_engine tree_dash =
     Inr \<lparr> Bundle.Name = ''b'',
           Instances =
             [\<lparr> Bundle = ''b'', BundleInstance.Name = CHR 0x22 # ''my-app'' @ [CHR 0x22],
                 Namespace = ''ns'',
                 Module = \<lparr> Repository = ''oci://x'', Version = ''1.0'', Digest = [] \<rparr>,
                 Values = Bottom (ErrorString ''field not found: values'') \<rparr>] \<rparr> \<and>
   CHR 0x22 # ''my-app'' @ [CHR 0x22] \<noteq> ''my-app''"
  by (simp add: GetBundle_def instance_of_def String_or_empty_def ref_engine_def ref_api_def
      ParsePath_def entry_app_def tree_dash_def ref_Selector_String_def is_ident_def)

text \<open>
  C9. In every Bundle that GetBundle returns, the Bundle field of each instance record
  is the Name of the Bundle, and that name is the string read at the bundle-name path.
\<close>

theorem GetBundle_instances_carry_bundle_name:
  assumes "GetBundle api c v = Inr b"
  shows "(\<forall>i \<in> set (Instances b). Bundle i = Bundle.Name b) \<and>
    cue_String c (cue_LookupPath c v (BundleName api)) = Inr (Bundle.Name b)"
proof -
  from GetBundle_InrD [OF assms] obtain n entries where
    n: "cue_String c (cue_LookupPath c v (BundleName api)) = Inr n" and
    b: "b = \<lparr> Bundle.Name = n, Instances = map (instance_of api c n) entries \<rparr>"
    by blast
  show ?thesis
    using n by (auto simp: b instance_of_simps)
qed

theorem GetBundle_instances_carry_bundle_name_witness:
  "GetBundle ref_api ref_engine tree0 =
     Inr \<lparr> Bundle.Name = ''b'',
           Instances =
             [\<lparr> Bundle = ''b'', BundleInstance.Name = ''app'', Namespace = ''ns'',
                 Module = \<lparr> Repository = ''oci://x'', Version = ''1.0'', Digest = [] \<rparr>,
                 Values = Bottom (ErrorString ''field not found: values'') \<rparr>,
              \<lparr> Bundle = ''b'', BundleInstance.Name = ''db'', Namespace = [],
                 Module = \<lparr> Repository = [], Version = [], Digest = ''sha'' \<rparr>,
                 Values = Value (Doc []) \<rparr>] \<rparr> \<and>
   map Bundle [\<lparr> Bundle = ''b'', BundleInstance.Name = ''app'', Namespace = ''ns'',
                 Module = \<lparr> Repository = ''oci://x'', Version = ''1.0'', Digest = [] \<rparr>,
                 Values = Bottom (ErrorString ''field not found: values'') \<rparr>,
              \<lparr> Bundle = ''b'', BundleInstance.Name = ''db'', Namespace = [],
                 Module = \<lparr> Repository = [], Version = [], Digest = ''sha'' \<rparr>,
                 Values = Value (Doc []) \<rparr>] = [''b'', ''b''] \<and>
   cue_String ref_engine (cue_LookupPath ref_engine tree0 (BundleName ref_api)) = Inr ''b''"
  using GetBundle_instances_carry_bundle_name [OF tree0_GetBundle] tree0_GetBundle
  by simp

lemma tree0_validated:
  "cue_Err ref_engine tree0 = None" "cue_Validate ref_engine tree0 = None"
  by (simp_all add: ref_engine_def tree0_def entry_app_def entry_db_def)

text \<open>
  C1, as the code has it. GetBundle drops the error of every per-instance lookup, the
  module URL included. On a validated tree (no error, concreteness check passed) on which
  the bundle-name lookup, the instances lookup and the iteration over the fields of the
  instances mapping succeed, GetBundle returns a Bundle and no error, and the Repository,
  Version, Digest and Namespace of each record are the strings found at their paths, or
  the empty string where the path is absent or not a string.
\<close>

theorem GetBundle_missing_paths_are_empty:
  assumes "cue_Err c v = None" and "cue_Validate c v = None"
    and "cue_String c (cue_LookupPath c v (BundleName api)) = Inr n"
    and "cue_Err c (cue_LookupPath c v (BundleInstancesSelector api)) = None"
    and "cue_Fields c (cue_LookupPath c v (BundleInstancesSelector api)) = Inr entries"
  shows "\<exists>b. GetBundle api c v = Inr b \<and>
    map (\<lambda>i. Repository (Module i)) (Instances b) =
      map (\<lambda>entry. case cue_String c (cue_LookupPath c (snd entry) (BundleModuleURLSelector api))
                     of Inl err \<Rightarrow> [] | Inr s \<Rightarrow> s) entries \<and>
    map (\<lambda>i. Version (Module i)) (Instances b) =
      map (\<lambda>entry. case cue_String c (cue_LookupPath c (snd entry) (BundleModuleVersionSelector api))
                     of Inl err \<Rightarrow> [] | Inr s \<Rightarrow> s) entries \<and>
    map (\<lambda>i. Digest (Module i)) (Instances b) =
      map (\<lambda>entry. case cue_String c (cue_LookupPath c (snd entry) (BundleModuleDigestSelector api))
                     of Inl err \<Rightarrow> [] | Inr s \<Rightarrow> s) entries \<and>
    map Namespace (Instances b) =
      map (\<lambda>entry. case cue_String c (cue_LookupPath c (snd entry) (BundleNamespaceSelector api))
                     of Inl err \<Rightarrow> [] | Inr s \<Rightarrow> s) entries"
  unfolding GetBundle_Inr [OF assms(3-5)]
  by (simp add: instance_of_simps comp_def String_or_empty_def)

theorem GetBundle_missing_paths_are_empty_witness:
  "cue_Err ref_engine tree0 = None \<and> cue_Validate ref_engine tree0 = None \<and>
   cue_String ref_engine (cue_LookupPath ref_engine tree0 (BundleName ref_api)) = Inr ''b'' \<and>
   cue_Err ref_engine (cue_LookupPath ref_engine tree0 (BundleInstancesSelector ref_api)) = None \<and>
   cue_Fields ref_engine (cue_LookupPath ref_engine tree0 (BundleInstancesSelector ref_api)) =
     Inr [(''app'', Value entry_app), (''db'', Value entry_db)] \<and>
   cue_String ref_engine
     (cue_LookupPath ref_engine (Value entry_db) (BundleModuleURLSelector ref_api)) =
     Inl (ErrorString ''field not found: module.url'') \<and>
   (\<exists>b. GetBundle ref_api ref_engine tree0 = Inr b \<and>
     map (\<lambda>i. Repository (Module i)) (Instances b) = [''oci://x'', []] \<and>
     map (\<lambda>i. Version (Module i)) (Instances b) = [''1.0'', []] \<and>
     map (\<lambda>i. Digest (Module i)) (Instances b) = [[], ''sha''] \<and>
     map Namespace (Instances b) = [''ns'', []])"
proof -
  from GetBundle_missing_paths_are_empty
    [OF tree0_validated tree0_name tree0_instances_Err tree0_Fields]
  obtain b where b: "GetBundle ref_api ref_engine tree0 = Inr b"
    and r: "map (\<lambda>i. Repository (Module i)) (Instances b) =
      map (\<lambda>entry. case cue_String ref_engine
                      (cue_LookupPath ref_engine (snd entry) (BundleModuleURLSelector ref_api))
                     of Inl err \<Rightarrow> [] | Inr s \<Rightarrow> s) [(''app'', Value entry_app), (''db'', Value entry_db)]"
    and ver: "map (\<lambda>i. Version (Module i)) (Instances b) =
      map (\<lambda>entry. case cue_String ref_engine
                      (cue_LookupPath ref_engine (snd entry) (BundleModuleVersionSelector ref_api))
                     of Inl err \<Rightarrow> [] | Inr s \<Rightarrow> s) [(''app'', Value entry_app), (''db'', Value entry_db)]"
    and d: "map (\<lambda>i. Digest (Module i)) (Instances b) =
      map (\<lambda>entry. case cue_String ref_engine
                      (cue_LookupPath ref_engine (snd entry) (BundleModuleDigestSelector ref_api))
                     of Inl err \<Rightarrow> [] | Inr s \<Rightarrow> s) [(''app'', Value entry_app), (''db'', Value entry_db)]"
    and ns: "map Namespace (Instances b) =
      map (\<lambda>entry. case cue_String ref_engine
                      (cue_LookupPath ref_engine (snd entry) (BundleNamespaceSelector ref_api))
                     of Inl err \<Rightarrow> [] | Inr s \<Rightarrow> s) [(''app'', Value entry_app), (''db'', Value entry_db)]"
    by blast
  have R: "map (\<lambda>i. Repository (Module i)) (Instances b) = [''oci://x'', []]"
    unfolding r by (simp add: ref_engine_def ref_api_def ParsePath_def entry_app_def entry_db_def)
  have V: "map (\<lambda>i. Version (Module i)) (Instances b) = [''1.0'', []]"
    unfolding ver by (simp add: ref_engine_def ref_api_def ParsePath_def entry_app_def entry_db_def)
  have D: "map (\<lambda>i. Digest (Module i)) (Instances b) = [[], ''sha'']"
    unfolding d by (simp add: ref_engine_def ref_api_def ParsePath_def entry_app_def entry_db_def)
  have N: "map Namespace (Instances b) = [''ns'', []]"
    unfolding ns by (simp add: ref_engine_def ref_api_def ParsePath_def entry_app_def entry_db_def)
  have U: "cue_String ref_engine
     (cue_LookupPath ref_engine (Value entry_db) (BundleModuleURLSelector ref_api)) =
     Inl (ErrorString ''field not found: module.url'')"
    by (simp add: ref_engine_def ref_api_def ParsePath_def entry_db_def)
  show ?thesis
    by (intro conjI exI [of _ b] tree0_validated tree0_name tree0_instances_Err tree0_Fields
        b R V D N U)
qed

text \<open>
  C1, as stated, fails: the tree \<open>tree_db\<close> has no error and passes the concreteness check,
  its entry \<open>db\<close> has no module URL, the lookup of the URL path has an error, and GetBundle
  returns no error but a Bundle whose record for \<open>db\<close> has the empty Repository.
\<close>

theorem GetBundle_missing_url_counterexample:
  "cue_Err ref_engine tree_db = None \<and>
   cue_Validate ref_engine tree_db = None \<and>
   cue_String ref_engine
     (cue_LookupPath ref_engine (Value entry_db) (BundleModuleURLSelector ref_api)) =
     Inl (ErrorString ''field not found: module.url'') \<and>
   GetBundle ref_api ref_engine tree_db =
     Inr \<lparr> Bundle.Name = ''b'',
           Instances =
             [\<lparr> Bundle = ''b'', BundleInstance.Name = ''db'', Namespace = [],
                 Module = \<lparr> Repository = [], Version = [], Digest = ''sha'' \<rparr>,
                 Values = Value (Doc []) \<rparr>] \<rparr>"
  by (simp add: GetBundle_def instance_of_def String_or_empty_def ref_engine_def ref_api_def
      ParsePath_def entry_db_def tree_db_def ref_Selector_String_def is_ident_def)

section \<open>Properties of Build\<close>

lemma unify_orphaned_filter:
  "unify_orphaned e v fs = unify_orphaned e v (filter (\<lambda>f. Encoding f = build_YAML) fs)"
  by (induction fs arbitrary: v) (simp_all split: sum.splits)

lemma unify_orphaned_append:
  "unify_orphaned e v (pre @ post) =
     (case unify_orphaned e v pre of Inl err \<Rightarrow> Inl err | Inr v' \<Rightarrow> unify_orphaned e v' post)"
  by (induction pre arbitrary: v) (simp_all split: sum.splits)

lemma Build_Cons:
  assumes "load_Instances e (files b) w = inst # ix"
  shows "Build e b w =
    (case Err inst of
       Some err \<Rightarrow> Inl (Errorf_w ''instance error: '' (Err inst))
     | None \<Rightarrow>
         (case unify_orphaned e (ctx_BuildInstance e inst) (OrphanedFiles inst) of
            Inl err \<Rightarrow> Inl err
          | Inr v \<Rightarrow> check_value e v))"
  using assms by (simp add: Build_def)

lemma Build_InrD:
  assumes "Build e b w = Inr v"
  shows "\<exists>inst ix. load_Instances e (files b) w = inst # ix \<and> Err inst = None \<and>
    unify_orphaned e (ctx_BuildInstance e inst) (OrphanedFiles inst) = Inr v \<and>
    cue_Err e v = None \<and> cue_Validate e v = None"
  using assms
  by (auto simp: Build_def check_value_def split: list.splits option.splits sum.splits)

lemma staged_load:
  "load_Instances ref_engine (files staged_builder) staged_fs = [staged_instance]"
  by (simp add: ref_engine_def staged_builder_def staged_fs_def staged_instance_def
      ref_Instances_def extension_def parse_doc_def ParsePath_def)

lemma staged_unify_orphaned:
  "unify_orphaned ref_engine (ctx_BuildInstance ref_engine staged_instance)
     (OrphanedFiles staged_instance) = Inr staged_value"
  by (simp add: ref_engine_def staged_instance_def staged_value_def ref_BuildInstance_def
      build_YAML_def parse_doc_def ParsePath_def unify_def)

lemma staged_checks:
  "cue_Err ref_engine staged_value = None" "cue_Validate ref_engine staged_value = None"
  by (simp_all add: ref_engine_def staged_value_def)

lemma staged_Err: "Err staged_instance = None"
  by (simp add: staged_instance_def)

lemma staged_Build: "Build ref_engine staged_builder staged_fs = Inr staged_value"
  by (simp add: Build_Cons [OF staged_load] staged_Err staged_unify_orphaned check_value_def
      staged_checks)

lemma schema_load:
  "load_Instances ref_engine (files schema_builder) schema_fs = [schema_instance]"
  by (simp add: ref_engine_def schema_builder_def schema_fs_def schema_instance_def
      ref_Instances_def extension_def parse_doc_def ParsePath_def)

lemma schema_unify_orphaned:
  "unify_orphaned ref_engine (ctx_BuildInstance ref_engine schema_instance)
     (OrphanedFiles schema_instance) = Inr schema_value"
  by (simp add: ref_engine_def schema_instance_def schema_value_def ref_BuildInstance_def unify_def)

lemma schema_checks:
  "cue_Err ref_engine schema_value = None"
  "cue_Validate ref_engine schema_value = Some (ErrorString ''bundle.name: incomplete value'')"
  by (simp_all add: ref_engine_def schema_value_def)

text \<open>
  C3. When the composed tree (the built instance unified with the YAML orphaned files)
  fails the concreteness check, Build returns an error and no value, and where the tree
  has no evaluation error of its own the error is the one of the check. Build returns a
  value only when the check passes, and the value is the composed tree itself, nothing
  substituted.
\<close>

theorem Build_concreteness_gate:
  "(load_Instances e (files b) w = inst # ix \<and> Err inst = None \<and>
    unify_orphaned e (ctx_BuildInstance e inst) (OrphanedFiles inst) = Inr v \<and>
    cue_Validate e v = Some err
      \<longrightarrow> (\<exists>err'. Build e b w = Inl err') \<and>
          (cue_Err e v = None \<longrightarrow> Build e b w = Inl err)) \<and>
   (Build e b w = Inr v'
      \<longrightarrow> cue_Validate e v' = None \<and>
          (\<exists>inst' ix'. load_Instances e (files b) w = inst' # ix' \<and>
             unify_orphaned e (ctx_BuildInstance e inst') (OrphanedFiles inst') = Inr v'))"
proof (intro conjI impI)
  assume a: "load_Instances e (files b) w = inst # ix \<and> Err inst = None \<and>
    unify_orphaned e (ctx_BuildInstance e inst) (OrphanedFiles inst) = Inr v \<and>
    cue_Validate e v = Some err"
  then have B: "Build e b w = check_value e v"
    by (simp add: Build_def)
  from a show "\<exists>err'. Build e b w = Inl err'"
    unfolding B by (cases "cue_Err e v") (simp_all add: check_value_def)
  assume "cue_Err e v = None"
  with a show "Build e b w = Inl err"
    unfolding B by (simp add: check_value_def)
next
  assume "Build e b w = Inr v'"
  from Build_InrD [OF this] show "cue_Validate e v' = None" by blast
next
  assume "Build e b w = Inr v'"
  from Build_InrD [OF this]
  show "\<exists>inst' ix'. load_Instances e (files b) w = inst' # ix' \<and>
    unify_orphaned e (ctx_BuildInstance e inst') (OrphanedFiles inst') = Inr v'"
    by blast
qed

theorem Build_concreteness_gate_witness:
  "(load_Instances ref_engine (files schema_builder) schema_fs = [schema_instance] \<and>
    Err schema_instance = None \<and>
    unify_orphaned ref_engine (ctx_BuildInstance ref_engine schema_instance)
      (OrphanedFiles schema_instance) = Inr schema_value \<and>
    cue_Validate ref_engine schema_value = Some (ErrorString ''bundle.name: incomplete value'') \<and>
    cue_Err ref_engine schema_value = None \<and>
    Build ref_engine schema_builder schema_fs =
      Inl (ErrorString ''bundle.name: incomplete value'')) \<and>
   (Build ref_engine staged_builder staged_fs = Inr staged_value \<and>
    cue_Validate ref_engine staged_value = None \<and>
    (\<exists>inst' ix'. load_Instances ref_engine (files staged_builder) staged_fs = inst' # ix' \<and>
       unify_orphaned ref_engine (ctx_BuildInstance ref_engine inst') (OrphanedFiles inst') =
         Inr staged_value))"
proof -
  have E: "Err schema_instance = None"
    by (simp add: schema_instance_def)
  note gate1 = Build_concreteness_gate
    [where e = ref_engine and b = schema_builder and w = schema_fs and inst = schema_instance
      and ix = "[]" and v = schema_value and err = "ErrorString ''bundle.name: incomplete value''",
      THEN conjunct1, rule_format, THEN conjunct2, rule_format]
  note gate2 = Build_concreteness_gate
    [where e = ref_engine and b = staged_builder and w = staged_fs and v' = staged_value,
      THEN conjunct2, rule_format, OF staged_Build]
  have "Build ref_engine schema_builder schema_fs =
      Inl (ErrorString ''bundle.name: incomplete value'')"
    by (rule gate1) (intro conjI schema_load E schema_unify_orphaned schema_checks)+
  then show ?thesis
    using gate2 by (intro conjI schema_load E schema_unify_orphaned schema_checks staged_Build)
      simp_all
qed

lemma yaml_load:
  "load_Instances ref_engine (files yaml_builder) yaml_fs = [yaml_instance]"
  by (simp add: ref_engine_def yaml_builder_def yaml_fs_def yaml_instance_def
      ref_Instances_def extension_def parse_doc_def ParsePath_def)

lemma unify_orphaned_yaml:
  assumes "\<forall>f \<in> set fs. Encoding f = build_YAML"
    and "map (\<lambda>f. yaml_Extract e (Filename f) (Source f)) fs = map Inr asts"
  shows "unify_orphaned e v fs =
    Inr (foldl (\<lambda>v a. cue_Unify e v (ctx_BuildFile e a)) v asts)"
  using assms
proof (induction fs arbitrary: v asts)
  case Nil
  then show ?case by simp
next
  case (Cons f fs)
  from Cons.prems(2) obtain a rest where asts: "asts = a # rest"
    and a: "yaml_Extract e (Filename f) (Source f) = Inr a"
    and rest: "map (\<lambda>f. yaml_Extract e (Filename f) (Source f)) fs = map Inr rest"
    by (cases asts) auto
  from Cons.prems(1) have y: "Encoding f = build_YAML" and ys: "\<forall>f \<in> set fs. Encoding f = build_YAML"
    by simp_all
  from Cons.IH [OF ys rest] show ?case
    by (simp add: y a asts)
qed

lemma unify_orphaned_merges:
  assumes "map (\<lambda>f. yaml_Extract e (Filename f) (Source f))
      (filter (\<lambda>f. Encoding f = build_YAML) fs) = map Inr asts"
  shows "unify_orphaned e v fs =
    Inr (foldl (\<lambda>v a. cue_Unify e v (ctx_BuildFile e a)) v asts)"
proof -
  have "unify_orphaned e v (filter (\<lambda>f. Encoding f = build_YAML) fs) =
      Inr (foldl (\<lambda>v a. cue_Unify e v (ctx_BuildFile e a)) v asts)"
    by (rule unify_orphaned_yaml [OF _ assms]) simp
  then show ?thesis
    by (simp only: unify_orphaned_filter [of e v fs])
qed

text \<open>
  C8. Build merges exactly the orphaned files whose encoding is YAML onto the main
  value. When every YAML orphaned file parses, the loop gives the built instance unified,
  in order, with the value built from each YAML file, and Build returns the two checks
  of that value. An orphaned file in another encoding is skipped: the loop gives the same
  result on the list with every such file removed, and two loads that agree on the load
  error, on the built instance and on the YAML orphaned files give the same result of
  Build, whatever other orphaned files they hold.
\<close>

theorem Build_merges_yaml_only:
  "(map (\<lambda>f. yaml_Extract e (Filename f) (Source f))
      (filter (\<lambda>f. Encoding f = build_YAML) fs) = map Inr asts
      \<longrightarrow> unify_orphaned e v fs =
            Inr (foldl (\<lambda>v a. cue_Unify e v (ctx_BuildFile e a)) v asts)) \<and>
   (load_Instances e (files b) w = inst # ix \<and> Err inst = None \<and>
    map (\<lambda>f. yaml_Extract e (Filename f) (Source f))
      (filter (\<lambda>f. Encoding f = build_YAML) (OrphanedFiles inst)) = map Inr asts'
      \<longrightarrow> Build e b w =
            check_value e
              (foldl (\<lambda>v a. cue_Unify e v (ctx_BuildFile e a)) (ctx_BuildInstance e inst) asts')) \<and>
   unify_orphaned e v fs = unify_orphaned e v (filter (\<lambda>f. Encoding f = build_YAML) fs) \<and>
   (load_Instances e (files b) w = inst # ix \<and> load_Instances e (files b') w' = inst' # ix' \<and>
    Err inst = Err inst' \<and> ctx_BuildInstance e inst = ctx_BuildInstance e inst' \<and>
    filter (\<lambda>f. Encoding f = build_YAML) (OrphanedFiles inst) =
      filter (\<lambda>f. Encoding f = build_YAML) (OrphanedFiles inst')
      \<longrightarrow> Build e b w = Build e b' w')"
proof (intro conjI impI)
  assume "map (\<lambda>f. yaml_Extract e (Filename f) (Source f))
      (filter (\<lambda>f. Encoding f = build_YAML) fs) = map Inr asts"
  then show "unify_orphaned e v fs =
      Inr (foldl (\<lambda>v a. cue_Unify e v (ctx_BuildFile e a)) v asts)"
    by (rule unify_orphaned_merges)
next
  assume a: "load_Instances e (files b) w = inst # ix \<and> Err inst = None \<and>
    map (\<lambda>f. yaml_Extract e (Filename f) (Source f))
      (filter (\<lambda>f. Encoding f = build_YAML) (OrphanedFiles inst)) = map Inr asts'"
  then have l: "load_Instances e (files b) w = inst # ix" and n: "Err inst = None"
    by simp_all
  from a have "unify_orphaned e (ctx_BuildInstance e inst) (OrphanedFiles inst) =
      Inr (foldl (\<lambda>v a. cue_Unify e v (ctx_BuildFile e a)) (ctx_BuildInstance e inst) asts')"
    by (intro unify_orphaned_merges) simp
  then show "Build e b w =
      check_value e
        (foldl (\<lambda>v a. cue_Unify e v (ctx_BuildFile e a)) (ctx_BuildInstance e inst) asts')"
    by (simp add: Build_Cons [OF l] n)
next
  show "unify_orphaned e v fs = unify_orphaned e v (filter (\<lambda>f. Encoding f = build_YAML) fs)"
    by (rule unify_orphaned_filter)
next
  assume a: "load_Instances e (files b) w = inst # ix \<and>
    load_Instances e (files b') w' = inst' # ix' \<and>
    Err inst = Err inst' \<and> ctx_BuildInstance e inst = ctx_BuildInstance e inst' \<and>
    filter (\<lambda>f. Encoding f = build_YAML) (OrphanedFiles inst) =
      filter (\<lambda>f. Encoding f = build_YAML) (OrphanedFiles inst')"
  then have l: "load_Instances e (files b) w = inst # ix"
    and l': "load_Instances e (files b') w' = inst' # ix'"
    by simp_all
  from a have E: "Err inst = Err inst'"
    by simp
  have U: "unify_orphaned e (ctx_BuildInstance e inst) (OrphanedFiles inst) =
      unify_orphaned e (ctx_BuildInstance e inst') (OrphanedFiles inst')"
    using a unify_orphaned_filter [of e "ctx_BuildInstance e inst" "OrphanedFiles inst"]
      unify_orphaned_filter [of e "ctx_BuildInstance e inst'" "OrphanedFiles inst'"]
    by simp
  show "Build e b w = Build e b' w'"
    unfolding Build_Cons [OF l] Build_Cons [OF l'] E U ..
qed

theorem Build_merges_yaml_only_witness:
  "load_Instances ref_engine (files staged_builder) staged_fs = [staged_instance] \<and>
   Err staged_instance = None \<and>
   map (\<lambda>f. yaml_Extract ref_engine (Filename f) (Source f))
     (filter (\<lambda>f. Encoding f = build_YAML) (OrphanedFiles staged_instance)) =
     map Inr [Doc [(''bundle'', Doc [(''tier'', Scalar (Str ''prod''))])]] \<and>
   ctx_BuildInstance ref_engine staged_instance =
     Value (Doc [(''bundle'', Doc [(''name'', Scalar (Str ''podinfo''))])]) \<and>
   Build ref_engine staged_builder staged_fs =
     check_value ref_engine
       (cue_Unify ref_engine (Value (Doc [(''bundle'', Doc [(''name'', Scalar (Str ''podinfo''))])]))
          (ctx_BuildFile ref_engine (Doc [(''bundle'', Doc [(''tier'', Scalar (Str ''prod''))])]))) \<and>
   Build ref_engine staged_builder staged_fs =
     Inr (Value (Doc [(''bundle'', Doc [(''name'', Scalar (Str ''podinfo'')),
                                         (''tier'', Scalar (Str ''prod''))])])) \<and>
   load_Instances ref_engine (files yaml_builder) yaml_fs = [yaml_instance] \<and>
   Err staged_instance = Err yaml_instance \<and>
   ctx_BuildInstance ref_engine staged_instance = ctx_BuildInstance ref_engine yaml_instance \<and>
   filter (\<lambda>f. Encoding f = build_YAML) (OrphanedFiles staged_instance) =
     filter (\<lambda>f. Encoding f = build_YAML) (OrphanedFiles yaml_instance) \<and>
   OrphanedFiles staged_instance \<noteq> OrphanedFiles yaml_instance \<and>
   Build ref_engine staged_builder staged_fs = Build ref_engine yaml_builder yaml_fs"
proof -
  note t = Build_merges_yaml_only
  have X: "map (\<lambda>f. yaml_Extract ref_engine (Filename f) (Source f))
     (filter (\<lambda>f. Encoding f = build_YAML) (OrphanedFiles staged_instance)) =
     map Inr [Doc [(''bundle'', Doc [(''tier'', Scalar (Str ''prod''))])]]"
    by (simp add: ref_engine_def staged_instance_def build_YAML_def parse_doc_def ParsePath_def)
  have I: "ctx_BuildInstance ref_engine staged_instance =
     Value (Doc [(''bundle'', Doc [(''name'', Scalar (Str ''podinfo''))])])"
    by (simp add: ref_engine_def staged_instance_def ref_BuildInstance_def unify_def)
  have M: "Build ref_engine staged_builder staged_fs =
     check_value ref_engine
       (cue_Unify ref_engine (Value (Doc [(''bundle'', Doc [(''name'', Scalar (Str ''podinfo''))])]))
          (ctx_BuildFile ref_engine (Doc [(''bundle'', Doc [(''tier'', Scalar (Str ''prod''))])])))"
    using t [where e = ref_engine and b = staged_builder and w = staged_fs
        and inst = staged_instance and ix = "[]"
        and asts' = "[Doc [(''bundle'', Doc [(''tier'', Scalar (Str ''prod''))])]]",
        THEN conjunct2, THEN conjunct1, rule_format, OF conjI [OF staged_load conjI [OF staged_Err X]]]
    by (simp add: I)
  have R: "Build ref_engine staged_builder staged_fs =
     Inr (Value (Doc [(''bundle'', Doc [(''name'', Scalar (Str ''podinfo'')),
                                         (''tier'', Scalar (Str ''prod''))])]))"
    unfolding M by (simp add: check_value_def ref_engine_def unify_def)
  have E: "Err staged_instance = Err yaml_instance"
    by (simp add: staged_instance_def yaml_instance_def)
  have B: "ctx_BuildInstance ref_engine staged_instance = ctx_BuildInstance ref_engine yaml_instance"
    by (simp add: ref_engine_def ref_BuildInstance_def staged_instance_def yaml_instance_def)
  have F: "filter (\<lambda>f. Encoding f = build_YAML) (OrphanedFiles staged_instance) =
     filter (\<lambda>f. Encoding f = build_YAML) (OrphanedFiles yaml_instance)"
    by (simp add: build_YAML_def staged_instance_def yaml_instance_def)
  have N: "OrphanedFiles staged_instance \<noteq> OrphanedFiles yaml_instance"
    by (simp add: staged_instance_def yaml_instance_def)
  have S: "Build ref_engine staged_builder staged_fs = Build ref_engine yaml_builder yaml_fs"
    by (rule t [where e = ref_engine and inst = staged_instance and ix = "[]"
          and inst' = yaml_instance and ix' = "[]",
          THEN conjunct2, THEN conjunct2, THEN conjunct2, rule_format])
      (intro conjI staged_load yaml_load E B F)
  show ?thesis
    by (intro conjI staged_load staged_Err X I M R yaml_load E B F N S)
qed

section \<open>Determinism of Build\<close>

inductive_cases unify_orphaned_run_NilE: "unify_orphaned_run R v [] r"

inductive_cases unify_orphaned_run_ConsE: "unify_orphaned_run R v (f # fs) r"

lemma deterministicD:
  assumes "deterministic R"
  shows "\<And>fs w x x'. rel_Instances R fs w x \<Longrightarrow> rel_Instances R fs w x' \<Longrightarrow> x = x'"
    and "\<And>i y y'. rel_BuildInstance R i y \<Longrightarrow> rel_BuildInstance R i y' \<Longrightarrow> y = y'"
    and "\<And>n s z z'. rel_Extract R n s z \<Longrightarrow> rel_Extract R n s z' \<Longrightarrow> z = z'"
    and "\<And>a u u'. rel_BuildFile R a u \<Longrightarrow> rel_BuildFile R a u' \<Longrightarrow> u = u'"
    and "\<And>p q t t'. rel_Unify R p q t \<Longrightarrow> rel_Unify R p q t' \<Longrightarrow> t = t'"
    and "\<And>v o1 o1'. rel_Err R v o1 \<Longrightarrow> rel_Err R v o1' \<Longrightarrow> o1 = o1'"
    and "\<And>v o2 o2'. rel_Validate R v o2 \<Longrightarrow> rel_Validate R v o2' \<Longrightarrow> o2 = o2'"
proof -
  note d = assms [unfolded deterministic_def]
  show "\<And>fs w x x'. rel_Instances R fs w x \<Longrightarrow> rel_Instances R fs w x' \<Longrightarrow> x = x'"
    using d by metis
  show "\<And>i y y'. rel_BuildInstance R i y \<Longrightarrow> rel_BuildInstance R i y' \<Longrightarrow> y = y'"
    using d by blast
  show "\<And>n s z z'. rel_Extract R n s z \<Longrightarrow> rel_Extract R n s z' \<Longrightarrow> z = z'"
    using d by blast
  show "\<And>a u u'. rel_BuildFile R a u \<Longrightarrow> rel_BuildFile R a u' \<Longrightarrow> u = u'"
    using d by blast
  show "\<And>p q t t'. rel_Unify R p q t \<Longrightarrow> rel_Unify R p q t' \<Longrightarrow> t = t'"
    using d by blast
  show "\<And>v o1 o1'. rel_Err R v o1 \<Longrightarrow> rel_Err R v o1' \<Longrightarrow> o1 = o1'"
    using d by blast
  show "\<And>v o2 o2'. rel_Validate R v o2 \<Longrightarrow> rel_Validate R v o2' \<Longrightarrow> o2 = o2'"
    using d by blast
qed

lemma unify_orphaned_run_unique:
  assumes "deterministic R"
  shows "unify_orphaned_run R v fs r1 \<Longrightarrow> unify_orphaned_run R v fs r2 \<Longrightarrow> r1 = r2"
proof (induction arbitrary: r2 rule: unify_orphaned_run.induct)
  case (run_done v)
  then show ?case
    by (auto elim: unify_orphaned_run_NilE)
next
  case (run_skip f v fs r)
  from run_skip.prems run_skip.hyps(1) have "unify_orphaned_run R v fs r2"
    by (auto elim: unify_orphaned_run_ConsE)
  then show ?case
    by (rule run_skip.IH)
next
  case (run_extract_error f err v fs)
  from run_extract_error.prems show ?case
  proof (rule unify_orphaned_run_ConsE)
    assume "Encoding f \<noteq> build_YAML"
    with run_extract_error.hyps show ?thesis by simp
  next
    fix err'
    assume "r2 = Inl err'" "rel_Extract R (Filename f) (Source f) (Inl err')"
    with run_extract_error.hyps deterministicD(3) [OF assms] show ?thesis
      by blast
  next
    fix a u v'
    assume "rel_Extract R (Filename f) (Source f) (Inr a)"
    with run_extract_error.hyps deterministicD(3) [OF assms] have "Inl err = (Inr a :: error + 'c)"
      by blast
    then show ?thesis by simp
  qed
next
  case (run_unify f a u v v' fs r)
  from run_unify.prems show ?case
  proof (rule unify_orphaned_run_ConsE)
    assume "Encoding f \<noteq> build_YAML"
    with run_unify.hyps show ?thesis by simp
  next
    fix err'
    assume "rel_Extract R (Filename f) (Source f) (Inl err')"
    with run_unify.hyps deterministicD(3) [OF assms] have "Inl err' = (Inr a :: error + 'c)"
      by blast
    then show ?thesis by simp
  next
    fix a' u' v''
    assume e: "rel_Extract R (Filename f) (Source f) (Inr a')"
      and b: "rel_BuildFile R a' u'" and u: "rel_Unify R v u' v''"
      and r: "unify_orphaned_run R v'' fs r2"
    from e run_unify.hyps deterministicD(3) [OF assms] have "Inr a' = (Inr a :: error + 'c)"
      by blast
    then have "a' = a" by simp
    with b run_unify.hyps deterministicD(4) [OF assms] have "u' = u"
      by blast
    with u run_unify.hyps deterministicD(5) [OF assms] have "v'' = v'"
      by blast
    with r show ?thesis
      using run_unify.IH by simp
  qed
qed

text \<open>What a second run can do once the first run has loaded, built and unified.\<close>

lemma Build_run_after_load:
  assumes det: "deterministic R"
    and load: "rel_Instances R (files b) w (inst # ix)"
    and run: "Build_run R b w r"
  shows "(\<exists>err. Err inst = Some err \<and> r = Inl (Some (Errorf_w ''instance error: '' (Err inst)))) \<or>
    (Err inst = None \<and> (\<exists>v0 u. rel_BuildInstance R inst v0 \<and>
       unify_orphaned_run R v0 (OrphanedFiles inst) u \<and>
       (case u of
          Inl err \<Rightarrow> r = Inl (Some err)
        | Inr v \<Rightarrow>
            (\<exists>err err'. rel_Err R v (Some err) \<and> rel_Err R v err' \<and> r = Inl err') \<or>
            (\<exists>err. rel_Err R v None \<and> rel_Validate R v (Some err) \<and> r = Inl (Some err)) \<or>
            (rel_Err R v None \<and> rel_Validate R v None \<and> r = Inr v))))"
  using run
proof (cases rule: Build_run.cases)
  case run_no_instances
  with load deterministicD(1) [OF det] have "inst # ix = []"
    by blast
  then show ?thesis by simp
next
  case (run_instance_error inst' ix' err)
  with load deterministicD(1) [OF det] have "inst # ix = inst' # ix'"
    by blast
  with run_instance_error show ?thesis by simp
next
  case (run_orphaned_error inst' ix' v0 err)
  with load deterministicD(1) [OF det] have "inst # ix = inst' # ix'"
    by blast
  with run_orphaned_error show ?thesis
    by (intro disjI2) force
next
  case (run_value_error inst' ix' v0 v err err')
  with load deterministicD(1) [OF det] have "inst # ix = inst' # ix'"
    by blast
  with run_value_error show ?thesis
    by (intro disjI2) force
next
  case (run_not_concrete inst' ix' v0 v err)
  with load deterministicD(1) [OF det] have "inst # ix = inst' # ix'"
    by blast
  with run_not_concrete show ?thesis
    by (intro disjI2) force
next
  case (run_value inst' ix' v0 v)
  with load deterministicD(1) [OF det] have "inst # ix = inst' # ix'"
    by blast
  with run_value show ?thesis
    by (intro disjI2) force
qed

text \<open>
  C6. Build is deterministic: over an engine whose calls each have at most one answer,
  two runs of Build on the same builder (the same ordered file list) and the same
  file-system state have the same outcome, the same value or the same error.
\<close>

theorem Build_deterministic:
  assumes det: "deterministic R"
    and run1: "Build_run R b w r1"
    and run2: "Build_run R b w r2"
  shows "r1 = r2"
proof -
  consider (nil) "rel_Instances R (files b) w []"
    | (cons) inst ix where "rel_Instances R (files b) w (inst # ix)"
    using run1 by (cases rule: Build_run.cases) blast+
  then show ?thesis
  proof cases
    case nil
    have only: "r = Inl (Some (ErrorString ''no instances found''))" if "Build_run R b w r" for r
      using that
    proof (cases rule: Build_run.cases)
      case run_no_instances
      then show ?thesis by simp
    qed (use nil deterministicD(1) [OF det] in \<open>metis list.distinct(1)\<close>)+
    from only [OF run1] only [OF run2] show ?thesis by simp
  next
    case cons
    note A1 = Build_run_after_load [OF det cons run1]
      and A2 = Build_run_after_load [OF det cons run2]
    show ?thesis
    proof (cases "Err inst")
      case (Some err)
      with A1 A2 show ?thesis by simp
    next
      case None
      with A1 obtain v0 u where v0: "rel_BuildInstance R inst v0"
        and u: "unify_orphaned_run R v0 (OrphanedFiles inst) u"
        and c1: "case u of
          Inl err \<Rightarrow> r1 = Inl (Some err)
        | Inr v \<Rightarrow>
            (\<exists>err err'. rel_Err R v (Some err) \<and> rel_Err R v err' \<and> r1 = Inl err') \<or>
            (\<exists>err. rel_Err R v None \<and> rel_Validate R v (Some err) \<and> r1 = Inl (Some err)) \<or>
            (rel_Err R v None \<and> rel_Validate R v None \<and> r1 = Inr v)"
        by auto
      from None A2 obtain v0' u' where v0': "rel_BuildInstance R inst v0'"
        and u': "unify_orphaned_run R v0' (OrphanedFiles inst) u'"
        and c2': "case u' of
          Inl err \<Rightarrow> r2 = Inl (Some err)
        | Inr v \<Rightarrow>
            (\<exists>err err'. rel_Err R v (Some err) \<and> rel_Err R v err' \<and> r2 = Inl err') \<or>
            (\<exists>err. rel_Err R v None \<and> rel_Validate R v (Some err) \<and> r2 = Inl (Some err)) \<or>
            (rel_Err R v None \<and> rel_Validate R v None \<and> r2 = Inr v)"
        by auto
      from v0 v0' have "v0' = v0"
        by (rule deterministicD(2) [OF det, symmetric])
      with u u' have "u' = u"
        using unify_orphaned_run_unique [OF det] by blast
      note c2 = c2' [unfolded this]
      show ?thesis
      proof (cases u)
        case (Inl err)
        with c1 c2 show ?thesis by simp
      next
        case (Inr v)
        with c1 have d1:
          "(\<exists>err err'. rel_Err R v (Some err) \<and> rel_Err R v err' \<and> r1 = Inl err') \<or>
           (\<exists>err. rel_Err R v None \<and> rel_Validate R v (Some err) \<and> r1 = Inl (Some err)) \<or>
           (rel_Err R v None \<and> rel_Validate R v None \<and> r1 = Inr v)"
          by simp
        from Inr c2 have d2:
          "(\<exists>err err'. rel_Err R v (Some err) \<and> rel_Err R v err' \<and> r2 = Inl err') \<or>
           (\<exists>err. rel_Err R v None \<and> rel_Validate R v (Some err) \<and> r2 = Inl (Some err)) \<or>
           (rel_Err R v None \<and> rel_Validate R v None \<and> r2 = Inr v)"
          by simp
        from d1 d2 show ?thesis
          by (elim disjE exE conjE)
            (metis deterministicD(6) [OF det] deterministicD(7) [OF det] option.distinct(1))+
      qed
    qed
  qed
qed

lemma unify_orphaned_run_rel_of:
  "unify_orphaned_run (rel_of e) v fs (unify_orphaned e v fs)"
proof (induction fs arbitrary: v)
  case Nil
  show ?case by (simp add: run_done)
next
  case (Cons f fs)
  show ?case
  proof (cases "Encoding f = build_YAML")
    case False
    with Cons show ?thesis
      by (simp add: run_skip)
  next
    case True
    show ?thesis
    proof (cases "yaml_Extract e (Filename f) (Source f)")
      case (Inl err)
      with True show ?thesis
        by (simp add: run_extract_error rel_of_def)
    next
      case (Inr a)
      have "unify_orphaned_run (rel_of e) v (f # fs)
          (unify_orphaned e (cue_Unify e v (ctx_BuildFile e a)) fs)"
        by (rule run_unify [OF True _ _ _ Cons, of a "ctx_BuildFile e a"])
          (simp_all add: rel_of_def Inr)
      with True Inr show ?thesis by simp
    qed
  qed
qed

lemma deterministic_rel_of: "deterministic (rel_of e)"
  by (simp add: deterministic_def rel_of_def)

lemma Build_run_rel_of: "Build_run (rel_of e) b w (map_sum Some id (Build e b w))"
proof (cases "load_Instances e (files b) w")
  case Nil
  then have "rel_Instances (rel_of e) (files b) w []"
    by (simp add: rel_of_def)
  from run_no_instances [OF this] Nil show ?thesis
    by (simp add: Build_def)
next
  case (Cons inst ix)
  then have load: "rel_Instances (rel_of e) (files b) w (inst # ix)"
    by (simp add: rel_of_def)
  have v0: "rel_BuildInstance (rel_of e) inst (ctx_BuildInstance e inst)"
    by (simp add: rel_of_def)
  note u = unify_orphaned_run_rel_of [of e "ctx_BuildInstance e inst" "OrphanedFiles inst"]
  show ?thesis
  proof (cases "Err inst")
    case (Some err)
    from run_instance_error [OF load Some] Some show ?thesis
      by (simp add: Build_Cons [OF Cons])
  next
    case None
    show ?thesis
    proof (cases "unify_orphaned e (ctx_BuildInstance e inst) (OrphanedFiles inst)")
      case (Inl err)
      from run_orphaned_error [OF load None v0 u [unfolded Inl]] show ?thesis
        by (simp add: Build_Cons [OF Cons] None Inl)
    next
      case (Inr v)
      note u' = u [unfolded Inr]
      show ?thesis
      proof (cases "cue_Err e v")
        case (Some err)
        have "rel_Err (rel_of e) v (Some err)"
          by (simp add: rel_of_def Some)
        from run_value_error [OF load None v0 u' this this] show ?thesis
          by (simp add: Build_Cons [OF Cons] None Inr check_value_def Some)
      next
        case noerr: None
        have e: "rel_Err (rel_of e) v None"
          by (simp add: rel_of_def noerr)
        show ?thesis
        proof (cases "cue_Validate e v")
          case None
          have "rel_Validate (rel_of e) v None"
            by (simp add: rel_of_def None)
          from run_value [OF load \<open>Err inst = None\<close> v0 u' e this] show ?thesis
            by (simp add: Build_Cons [OF Cons] \<open>Err inst = None\<close> Inr check_value_def noerr None)
        next
          case (Some err)
          have "rel_Validate (rel_of e) v (Some err)"
            by (simp add: rel_of_def Some)
          from run_not_concrete [OF load \<open>Err inst = None\<close> v0 u' e this] show ?thesis
            by (simp add: Build_Cons [OF Cons] \<open>Err inst = None\<close> Inr check_value_def noerr Some)
        qed
      qed
    qed
  qed
qed

theorem Build_deterministic_witness:
  "deterministic (rel_of ref_engine) \<and>
   Build_run (rel_of ref_engine) staged_builder staged_fs (Inr staged_value) \<and>
   Build_run (rel_of ref_engine) staged_builder staged_fs
     (map_sum Some id (Build ref_engine staged_builder staged_fs)) \<and>
   Inr staged_value = map_sum Some id (Build ref_engine staged_builder staged_fs)"
proof -
  have load: "rel_Instances (rel_of ref_engine) (files staged_builder) staged_fs
      (staged_instance # [])"
    by (simp add: rel_of_def staged_load)
  have v0: "rel_BuildInstance (rel_of ref_engine) staged_instance
      (ctx_BuildInstance ref_engine staged_instance)"
    by (simp add: rel_of_def)
  have u: "unify_orphaned_run (rel_of ref_engine) (ctx_BuildInstance ref_engine staged_instance)
      (OrphanedFiles staged_instance) (Inr staged_value)"
    using unify_orphaned_run_rel_of
      [of ref_engine "ctx_BuildInstance ref_engine staged_instance" "OrphanedFiles staged_instance"]
    by (simp only: staged_unify_orphaned)
  have e: "rel_Err (rel_of ref_engine) staged_value None"
    and c: "rel_Validate (rel_of ref_engine) staged_value None"
    by (simp_all add: rel_of_def staged_checks)
  have run1: "Build_run (rel_of ref_engine) staged_builder staged_fs (Inr staged_value)"
    by (rule run_value [OF load staged_Err v0 u e c])
  have run2: "Build_run (rel_of ref_engine) staged_builder staged_fs
      (map_sum Some id (Build ref_engine staged_builder staged_fs))"
    by (rule Build_run_rel_of)
  from Build_deterministic [OF deterministic_rel_of run1 run2] run1 run2 deterministic_rel_of
  show ?thesis
    by (intro conjI)
qed


section \<open>Properties of InitWorkspace\<close>

lemma itoa_nonempty: "itoa n \<noteq> []"
  by (subst itoa.simps) simp

lemma digit_inj: "i < 10 \<Longrightarrow> j < 10 \<Longrightarrow> ''0123456789'' ! i = ''0123456789'' ! j \<Longrightarrow> i = j"
  by (rule nth_eq_iff_index_eq [THEN iffD1, of "''0123456789''"]) simp_all

lemma digit_not_dot: "i < 10 \<Longrightarrow> ''0123456789'' ! i \<noteq> CHR ''.''"
proof -
  assume "i < 10"
  then have "''0123456789'' ! i \<in> set ''0123456789''"
    by (intro nth_mem) simp
  then show ?thesis by auto
qed

lemma itoa_no_dot: "CHR ''.'' \<notin> set (itoa n)"
proof (induction n rule: itoa.induct)
  case (1 n)
  show ?case
  proof (cases "n < 10")
    case True
    with digit_not_dot [of n] show ?thesis
      by (subst itoa.simps) auto
  next
    case False
    have "n mod 10 < 10" by simp
    from digit_not_dot [OF this] 1 [OF False] False show ?thesis
      by (subst itoa.simps) auto
  qed
qed

text \<open>Different indices print differently.\<close>

lemma itoa_inj: "itoa m = itoa n \<Longrightarrow> m = n"
proof (induction m arbitrary: n rule: itoa.induct)
  case (1 m)
  show ?case
  proof (cases "m < 10")
    case m: True
    show ?thesis
    proof (cases "n < 10")
      case True
      with m "1.prems" show ?thesis
        by (simp add: itoa.simps [of m] itoa.simps [of n] digit_inj)
    next
      case False
      with m "1.prems" itoa_nonempty [of "n div 10"] show ?thesis
        by (simp add: itoa.simps [of m] itoa.simps [of n])
    qed
  next
    case m: False
    show ?thesis
    proof (cases "n < 10")
      case True
      with m "1.prems" itoa_nonempty [of "m div 10"] show ?thesis
        by (simp add: itoa.simps [of m] itoa.simps [of n])
    next
      case False
      with m "1.prems" have e: "itoa (m div 10) = itoa (n div 10)"
        and d: "''0123456789'' ! (m mod 10) = ''0123456789'' ! (n mod 10)"
        by (simp_all add: itoa.simps [of m] itoa.simps [of n])
      from "1.IH" [OF m e] have "m div 10 = n div 10" .
      moreover from d have "m mod 10 = n mod 10"
        by (intro digit_inj) simp_all
      ultimately show ?thesis
        by (metis div_mult_mod_eq)
    qed
  qed
qed

lemma takeWhile_until: "c \<notin> set xs \<Longrightarrow> takeWhile (\<lambda>x. x \<noteq> c) (xs @ c # t) = xs"
  by (induction xs) auto

lemma itoa_prefix_inj:
  assumes "itoa i @ CHR ''.'' # r = itoa j @ CHR ''.'' # s"
  shows "i = j"
proof -
  have "takeWhile (\<lambda>c. c \<noteq> CHR ''.'') (itoa n @ CHR ''.'' # t) = itoa n" for n t
    by (rule takeWhile_until [OF itoa_no_dot])
  with assms have "itoa i = itoa j"
    by metis
  then show ?thesis by (rule itoa_inj)
qed

lemma copy_files_staged:
  "copy_files sys ws i fs staged w = (Inr staged', w') \<Longrightarrow>
     staged' = staged @ map (\<lambda>(j, file). dstFile sys ws j file) (enumerate i fs)"
proof (induction fs arbitrary: i staged w)
  case Nil
  then show ?case by simp
next
  case (Cons src rest)
  from Cons.prems obtain w1 where
    c: "cp_Copy sys src (dstFile sys ws i src) w = (None, w1)" and
    r: "copy_files sys ws (i + 1) rest (staged @ [dstFile sys ws i src]) w1 = (Inr staged', w')"
    by (auto simp: Let_def split: prod.splits option.splits)
  from Cons.IH [OF r] show ?case by simp
qed

lemma copy_files_copies:
  "copy_files sys ws i fs staged w = (Inr staged', w') \<Longrightarrow> k < length fs \<Longrightarrow>
     fst (cp_Copy sys (fs ! k) (dstFile sys ws (i + k) (fs ! k))
       (foldl (\<lambda>w (j, file). snd (cp_Copy sys file (dstFile sys ws j file) w)) w
          (take k (enumerate i fs)))) = None"
proof (induction fs arbitrary: i staged w k)
  case Nil
  then show ?case by simp
next
  case (Cons src rest)
  from Cons.prems(1) obtain w1 where
    c: "cp_Copy sys src (dstFile sys ws i src) w = (None, w1)" and
    r: "copy_files sys ws (i + 1) rest (staged @ [dstFile sys ws i src]) w1 = (Inr staged', w')"
    by (auto simp: Let_def split: prod.splits option.splits)
  show ?case
  proof (cases k)
    case 0
    with c show ?thesis by simp
  next
    case (Suc k')
    with Cons.prems(2) have "k' < length rest" by simp
    from Cons.IH [OF r this] Suc c show ?thesis by simp
  qed
qed

lemma copy_files_state:
  "copy_files sys ws i fs staged w = (Inr staged', w') \<Longrightarrow>
     w' = foldl (\<lambda>w (j, file). snd (cp_Copy sys file (dstFile sys ws j file) w)) w (enumerate i fs)"
proof (induction fs arbitrary: i staged w)
  case Nil
  then show ?case by simp
next
  case (Cons src rest)
  from Cons.prems(1) obtain w1 where
    c: "cp_Copy sys src (dstFile sys ws i src) w = (None, w1)" and
    r: "copy_files sys ws (i + 1) rest (staged @ [dstFile sys ws i src]) w1 = (Inr staged', w')"
    by (auto simp: Let_def split: prod.splits option.splits)
  from Cons.IH [OF r] c show ?case by simp
qed

lemma inject_files_append:
  "inject_files sys (pre @ post) w =
     (case inject_files sys pre w of
        (Some err, w') \<Rightarrow> (Some err, w')
      | (None, w') \<Rightarrow> inject_files sys post w')"
proof (induction pre arbitrary: w)
  case Nil
  show ?case by simp
next
  case (Cons f rest)
  show ?case
  proof (cases "injector_Inject sys f w")
    case (Inl err)
    then show ?thesis by simp
  next
    case (Inr data)
    obtain e w1 where wr: "os_WriteFile sys f data w = (e, w1)"
      by (cases "os_WriteFile sys f data w")
    show ?thesis
    proof (cases e)
      case None
      with Inr wr Cons.IH [of w1] show ?thesis by simp
    next
      case (Some err)
      with Inr wr show ?thesis by simp
    qed
  qed
qed

lemma InitWorkspace_cases:
  obtains (copy_error) err w1 where
      "copy_files sys ws 0 (files b) [] w = (Inl err, w1)"
      "InitWorkspace api sys b ws w = (Some err, b, w1)"
  | (inject_error) staged w1 err w2 where
      "copy_files sys ws 0 (files b) [] w = (Inr staged, w1)"
      "inject_files sys staged w1 = (Some err, w2)"
      "InitWorkspace api sys b ws w = (Some err, b, w2)"
  | (schema_error) staged w1 w2 err w3 where
      "copy_files sys ws 0 (files b) [] w = (Inr staged, w1)"
      "inject_files sys staged w1 = (None, w2)"
      "os_WriteFile sys (filepath_Join sys ws (itoa (length (files b) + 1) @ ''.schema.cue''))
         (BundleSchema api) w2 = (Some err, w3)"
      "InitWorkspace api sys b ws w = (Some err, b, w3)"
  | (ok) staged w1 w2 w3 where
      "copy_files sys ws 0 (files b) [] w = (Inr staged, w1)"
      "inject_files sys staged w1 = (None, w2)"
      "os_WriteFile sys (filepath_Join sys ws (itoa (length (files b) + 1) @ ''.schema.cue''))
         (BundleSchema api) w2 = (None, w3)"
      "InitWorkspace api sys b ws w =
         (None,
          b\<lparr>files := staged @ [filepath_Join sys ws (itoa (length (files b) + 1) @ ''.schema.cue'')]\<rparr>,
          w3)"
proof -
  obtain r w1 where c: "copy_files sys ws 0 (files b) [] w = (r, w1)"
    by (cases "copy_files sys ws 0 (files b) [] w")
  show thesis
  proof (cases r)
    case (Inl err)
    with c show thesis
      by (intro copy_error [of err w1]) (simp_all add: InitWorkspace_def)
  next
    case (Inr staged)
    obtain e w2 where i: "inject_files sys staged w1 = (e, w2)"
      by (cases "inject_files sys staged w1")
    show thesis
    proof (cases e)
      case (Some err)
      with c Inr i show thesis
        by (intro inject_error [of staged w1 err w2]) (simp_all add: InitWorkspace_def)
    next
      case None
      obtain e' w3 where s: "os_WriteFile sys
          (filepath_Join sys ws (itoa (length (files b) + 1) @ ''.schema.cue''))
          (BundleSchema api) w2 = (e', w3)"
        by (cases "os_WriteFile sys
          (filepath_Join sys ws (itoa (length (files b) + 1) @ ''.schema.cue''))
          (BundleSchema api) w2")
      show thesis
      proof (cases e')
        case (Some err)
        with c Inr i None s show thesis
          by (intro schema_error [of staged w1 w2 err w3]) (simp_all add: InitWorkspace_def)
      next
        case noerr: None
        with c Inr i None s show thesis
          by (intro ok [of staged w1 w2 w3]) (simp_all add: InitWorkspace_def)
      qed
    qed
  qed
qed

lemma InitWorkspace_NoneD:
  assumes "InitWorkspace api sys b ws w = (None, b', w')"
  shows "\<exists>staged w1 w2.
    copy_files sys ws 0 (files b) [] w = (Inr staged, w1) \<and>
    inject_files sys staged w1 = (None, w2) \<and>
    os_WriteFile sys (filepath_Join sys ws (itoa (length (files b) + 1) @ ''.schema.cue''))
      (BundleSchema api) w2 = (None, w') \<and>
    b' = b\<lparr>files := staged @ [filepath_Join sys ws (itoa (length (files b) + 1) @ ''.schema.cue'')]\<rparr>"
proof (cases rule: InitWorkspace_cases [of sys ws b w api])
  case (ok staged w1 w2 w3)
  with assms have "b' = b\<lparr>files := staged @
      [filepath_Join sys ws (itoa (length (files b) + 1) @ ''.schema.cue'')]\<rparr>" and "w3 = w'"
    by simp_all
  with ok show ?thesis by blast
qed (use assms in simp_all)

lemma InitWorkspace_SomeD:
  assumes "InitWorkspace api sys b ws w = (Some err, b', w')"
  shows "b' = b"
  by (cases rule: InitWorkspace_cases [of sys ws b w api]) (use assms in simp_all)

lemma src_InitWorkspace:
  "InitWorkspace ref_api ref_os src_builder ''ws'' src_fs = (None, staged_builder, init_fs)"
  by (simp add: InitWorkspace_def ref_api_def ref_os_def src_builder_def src_fs_def
      staged_builder_def init_fs_def dstFile_def filepath_Split_def ref_Copy_def ref_Inject_def
      itoa.simps Let_def)

lemma missing_InitWorkspace:
  "InitWorkspace ref_api ref_os missing_builder ''ws'' src_fs =
     (Some (ErrorString ''open missing.yaml: no such file or directory''), missing_builder,
      (''ws/0.bundle.cue'', ''bundle.name: podinfo'') # src_fs)"
  by (simp add: InitWorkspace_def ref_api_def ref_os_def missing_builder_def src_fs_def
      dstFile_def filepath_Split_def ref_Copy_def ref_Inject_def itoa.simps Let_def)

lemma init_load:
  "load_Instances ref_engine (files staged_builder) init_fs = [staged_instance]"
  by (simp add: ref_engine_def staged_builder_def init_fs_def src_fs_def staged_instance_def
      ref_Instances_def extension_def parse_doc_def ParsePath_def)

lemma init_Build: "Build ref_engine staged_builder init_fs = Inr staged_value"
  by (simp add: Build_Cons [OF init_load] staged_Err staged_unify_orphaned check_value_def
      staged_checks)

text \<open>
  C4. When InitWorkspace succeeds, the staged file list is, in input order, the
  destination \<^verbatim>\<open><i>.<originalName>\<close> in the workspace directory for the i-th source file,
  followed by the schema file as its last element; the i-th source file was copied to
  the i-th destination, in order, and the schema text was written to the schema file in
  the last step. The schema file is an additional file: where joining the workspace
  directory with different names gives different paths, no staged source file has the
  path of the schema file.
\<close>

theorem InitWorkspace_stages_in_order:
  assumes "InitWorkspace api sys b ws w = (None, b', w')"
  shows "files b' =
      map (\<lambda>(i, src). filepath_Join sys ws (itoa i @ ''.'' @ snd (filepath_Split src)))
        (enumerate 0 (files b)) @
      [filepath_Join sys ws (itoa (length (files b) + 1) @ ''.schema.cue'')] \<and>
    last (files b') = filepath_Join sys ws (itoa (length (files b) + 1) @ ''.schema.cue'') \<and>
    (\<forall>k < length (files b).
       files b' ! k = filepath_Join sys ws (itoa k @ ''.'' @ snd (filepath_Split (files b ! k))) \<and>
       fst (cp_Copy sys (files b ! k) (files b' ! k)
         (foldl (\<lambda>w (j, src). snd (cp_Copy sys src (dstFile sys ws j src) w)) w
            (take k (enumerate 0 (files b))))) = None) \<and>
    (\<exists>w2. os_WriteFile sys (last (files b')) (BundleSchema api) w2 = (None, w')) \<and>
    (inj (filepath_Join sys ws) \<longrightarrow> last (files b') \<notin> set (butlast (files b')))"
proof -
  let ?schema = "filepath_Join sys ws (itoa (length (files b) + 1) @ ''.schema.cue'')"
  let ?dst = "\<lambda>(i, src). filepath_Join sys ws (itoa i @ ''.'' @ snd (filepath_Split src))"
  from InitWorkspace_NoneD [OF assms] obtain staged w1 w2 where
    c: "copy_files sys ws 0 (files b) [] w = (Inr staged, w1)" and
    s: "os_WriteFile sys ?schema (BundleSchema api) w2 = (None, w')" and
    b': "b' = b\<lparr>files := staged @ [?schema]\<rparr>"
    by blast
  have d: "(\<lambda>(j, src). dstFile sys ws j src) = ?dst"
    by (simp add: dstFile_def fun_eq_iff)
  from copy_files_staged [OF c] have staged: "staged = map ?dst (enumerate 0 (files b))"
    by (simp add: d)
  have files: "files b' = map ?dst (enumerate 0 (files b)) @ [?schema]"
    by (simp add: b' staged)
  have last: "last (files b') = ?schema"
    by (simp add: files)
  have nth: "files b' ! k = filepath_Join sys ws (itoa k @ ''.'' @ snd (filepath_Split (files b ! k)))"
    if "k < length (files b)" for k
    using that by (simp add: files nth_append nth_enumerate_eq)
  have copy: "fst (cp_Copy sys (files b ! k) (files b' ! k)
         (foldl (\<lambda>w (j, src). snd (cp_Copy sys src (dstFile sys ws j src) w)) w
            (take k (enumerate 0 (files b))))) = None"
    if "k < length (files b)" for k
    using copy_files_copies [OF c that] nth [OF that] by (simp add: dstFile_def)
  from s last have wr: "\<exists>w2. os_WriteFile sys (last (files b')) (BundleSchema api) w2 = (None, w')"
    by auto
  have fresh: "last (files b') \<notin> set (butlast (files b'))" if inj: "inj (filepath_Join sys ws)"
  proof
    assume "last (files b') \<in> set (butlast (files b'))"
    then have "?schema \<in> set (map ?dst (enumerate 0 (files b)))"
      by (simp add: files)
    then obtain i src where
      i: "(i, src) \<in> set (enumerate 0 (files b))" and
      e: "?schema = filepath_Join sys ws (itoa i @ ''.'' @ snd (filepath_Split src))"
      by auto
    from injD [OF inj e]
    have "itoa (length (files b) + 1) @ CHR ''.'' # ''schema.cue'' =
        itoa i @ CHR ''.'' # snd (filepath_Split src)"
      by simp
    then have "length (files b) + 1 = i"
      by (rule itoa_prefix_inj)
    with i show False
      by (simp add: in_set_enumerate_eq)
  qed
  from files last nth copy wr fresh show ?thesis
    by blast
qed

theorem InitWorkspace_stages_in_order_witness:
  "InitWorkspace ref_api ref_os src_builder ''ws'' src_fs = (None, staged_builder, init_fs) \<and>
   files staged_builder =
     [''ws/0.bundle.cue'', ''ws/1.values.yaml'', ''ws/2.notes.txt'', ''ws/4.schema.cue''] \<and>
   last (files staged_builder) = ''ws/4.schema.cue'' \<and>
   files staged_builder ! 1 = ''ws/1.values.yaml'' \<and>
   cp_Copy ref_os ''over/values.yaml'' ''ws/1.values.yaml''
     ((''ws/0.bundle.cue'', ''bundle.name: podinfo'') # src_fs) =
     (None, (''ws/1.values.yaml'', ''bundle.tier: prod'') #
            (''ws/0.bundle.cue'', ''bundle.name: podinfo'') # src_fs) \<and>
   (\<exists>w2. os_WriteFile ref_os (last (files staged_builder)) (BundleSchema ref_api) w2 =
      (None, init_fs)) \<and>
   inj (filepath_Join ref_os ''ws'') \<and>
   last (files staged_builder) \<notin> set (butlast (files staged_builder))"
proof -
  note t = InitWorkspace_stages_in_order [OF src_InitWorkspace]
  have i: "inj (filepath_Join ref_os ''ws'')"
    by (simp add: ref_os_def inj_def)
  from t i have d: "last (files staged_builder) \<notin> set (butlast (files staged_builder))"
    by blast
  have f: "files staged_builder =
     [''ws/0.bundle.cue'', ''ws/1.values.yaml'', ''ws/2.notes.txt'', ''ws/4.schema.cue'']"
    using t [THEN conjunct1]
    by (simp add: ref_os_def src_builder_def filepath_Split_def itoa.simps enumerate_eq_zip upt_rec)
  have l: "last (files staged_builder) = ''ws/4.schema.cue''"
    using t [THEN conjunct2, THEN conjunct1]
    by (simp add: ref_os_def src_builder_def itoa.simps)
  have "1 < length (files src_builder)"
    by (simp add: src_builder_def)
  with t have n: "files staged_builder ! 1 =
      filepath_Join ref_os ''ws'' (itoa 1 @ ''.'' @ snd (filepath_Split (files src_builder ! 1)))"
    by blast
  have n': "files staged_builder ! 1 = ''ws/1.values.yaml''"
    unfolding n by (simp add: ref_os_def src_builder_def filepath_Split_def itoa.simps)
  have c: "cp_Copy ref_os ''over/values.yaml'' ''ws/1.values.yaml''
     ((''ws/0.bundle.cue'', ''bundle.name: podinfo'') # src_fs) =
     (None, (''ws/1.values.yaml'', ''bundle.tier: prod'') #
            (''ws/0.bundle.cue'', ''bundle.name: podinfo'') # src_fs)"
    by (simp add: ref_os_def ref_Copy_def src_fs_def)
  from t have w: "\<exists>w2. os_WriteFile ref_os (last (files staged_builder)) (BundleSchema ref_api) w2 =
      (None, init_fs)"
    by blast
  show ?thesis
    by (intro conjI src_InitWorkspace f l n' c w i d)
qed

text \<open>
  C10. InitWorkspace assigns the builder's file list on success only. When it returns an
  error, the builder is as it was, with the original source paths. When it returns no
  error, the file list is the staged workspace paths with the schema file appended last,
  and a following Build runs on that list.
\<close>

theorem InitWorkspace_assigns_files_on_success_only:
  "(InitWorkspace api sys b ws w = (Some err, b', w') \<longrightarrow> b' = b \<and> files b' = files b) \<and>
   (InitWorkspace api sys b ws w = (None, b'', w'') \<longrightarrow>
      files b'' =
        map (\<lambda>(i, src). filepath_Join sys ws (itoa i @ ''.'' @ snd (filepath_Split src)))
          (enumerate 0 (files b)) @
        [filepath_Join sys ws (itoa (length (files b) + 1) @ ''.schema.cue'')] \<and>
      Build e b'' w'' =
        Build e \<lparr> files =
          map (\<lambda>(i, src). filepath_Join sys ws (itoa i @ ''.'' @ snd (filepath_Split src)))
            (enumerate 0 (files b)) @
          [filepath_Join sys ws (itoa (length (files b) + 1) @ ''.schema.cue'')] \<rparr> w'')"
proof (intro conjI impI)
  assume "InitWorkspace api sys b ws w = (Some err, b', w')"
  from InitWorkspace_SomeD [OF this] show "b' = b" "files b' = files b"
    by simp_all
next
  let ?schema = "filepath_Join sys ws (itoa (length (files b) + 1) @ ''.schema.cue'')"
  let ?dst = "\<lambda>(i, src). filepath_Join sys ws (itoa i @ ''.'' @ snd (filepath_Split src))"
  assume ok: "InitWorkspace api sys b ws w = (None, b'', w'')"
  from InitWorkspace_NoneD [OF ok] obtain staged w1 where
    c: "copy_files sys ws 0 (files b) [] w = (Inr staged, w1)" and
    b'': "b'' = b\<lparr>files := staged @ [?schema]\<rparr>"
    by blast
  have d: "(\<lambda>(j, src). dstFile sys ws j src) = ?dst"
    by (simp add: dstFile_def fun_eq_iff)
  from copy_files_staged [OF c] have staged: "staged = map ?dst (enumerate 0 (files b))"
    by (simp add: d)
  show files: "files b'' = map ?dst (enumerate 0 (files b)) @ [?schema]"
    by (simp add: b'' staged)
  show "Build e b'' w'' = Build e \<lparr> files = map ?dst (enumerate 0 (files b)) @ [?schema] \<rparr> w''"
    by (simp add: Build_def files)
qed

theorem InitWorkspace_assigns_files_on_success_only_witness:
  "InitWorkspace ref_api ref_os missing_builder ''ws'' src_fs =
     (Some (ErrorString ''open missing.yaml: no such file or directory''), missing_builder,
      (''ws/0.bundle.cue'', ''bundle.name: podinfo'') # src_fs) \<and>
   files missing_builder = [''src/bundle.cue'', ''missing.yaml''] \<and>
   InitWorkspace ref_api ref_os src_builder ''ws'' src_fs = (None, staged_builder, init_fs) \<and>
   files staged_builder =
     [''ws/0.bundle.cue'', ''ws/1.values.yaml'', ''ws/2.notes.txt'', ''ws/4.schema.cue''] \<and>
   Build ref_engine staged_builder init_fs =
     Build ref_engine
       \<lparr> files = [''ws/0.bundle.cue'', ''ws/1.values.yaml'', ''ws/2.notes.txt'', ''ws/4.schema.cue''] \<rparr>
       init_fs \<and>
   Build ref_engine staged_builder init_fs = Inr staged_value"
proof -
  note t1 = InitWorkspace_assigns_files_on_success_only
    [where e = ref_engine, THEN conjunct1, rule_format, OF missing_InitWorkspace]
  note t2 = InitWorkspace_assigns_files_on_success_only
    [where e = ref_engine, THEN conjunct2, rule_format, OF src_InitWorkspace]
  have m: "files missing_builder = [''src/bundle.cue'', ''missing.yaml'']"
    using t1 by (simp add: missing_builder_def)
  have l: "map (\<lambda>(i, src). filepath_Join ref_os ''ws'' (itoa i @ ''.'' @ snd (filepath_Split src)))
          (enumerate 0 (files src_builder)) @
        [filepath_Join ref_os ''ws'' (itoa (length (files src_builder) + 1) @ ''.schema.cue'')] =
      [''ws/0.bundle.cue'', ''ws/1.values.yaml'', ''ws/2.notes.txt'', ''ws/4.schema.cue'']"
    by (simp add: ref_os_def src_builder_def filepath_Split_def itoa.simps enumerate_eq_zip upt_rec)
  from t2 have f: "files staged_builder =
     [''ws/0.bundle.cue'', ''ws/1.values.yaml'', ''ws/2.notes.txt'', ''ws/4.schema.cue'']"
    and b: "Build ref_engine staged_builder init_fs =
     Build ref_engine
       \<lparr> files = [''ws/0.bundle.cue'', ''ws/1.values.yaml'', ''ws/2.notes.txt'', ''ws/4.schema.cue''] \<rparr>
       init_fs"
    unfolding l by simp_all
  show ?thesis
    by (intro conjI missing_InitWorkspace m src_InitWorkspace f b init_Build)
qed


section \<open>Errors of the pipeline\<close>

lemma wraps_Errorf:
  "wraps ident cause (Errorf_w (pre @ ident @ mid) (Some cause))"
  by (simp add: wraps_def sublist_append suffix_def)

lemma InitWorkspace_inject_error:
  assumes c: "copy_files sys ws 0 (files b) [] w = (Inr (pre @ f # post), w1)"
    and p: "inject_files sys pre w1 = (None, w2)"
    and i: "injector_Inject sys f w2 = Inl cause"
  shows "InitWorkspace api sys b ws w =
    (Some (Errorf_w (''failed to inject '' @ snd (filepath_Split f) @ '': '') (Some cause)), b, w2)"
proof -
  have "inject_files sys (pre @ f # post) w1 =
      (Some (Errorf_w (''failed to inject '' @ snd (filepath_Split f) @ '': '') (Some cause)), w2)"
    by (simp add: inject_files_append p i)
  with c show ?thesis
    by (simp add: InitWorkspace_def)
qed

lemma Build_extract_error:
  assumes l: "load_Instances e (files b) w = inst # ix"
    and n: "Err inst = None"
    and o: "OrphanedFiles inst = pre @ g # post"
    and u: "unify_orphaned e (ctx_BuildInstance e inst) pre = Inr v"
    and y: "Encoding g = build_YAML"
    and x: "yaml_Extract e (Filename g) (Source g) = Inl cause"
  shows "Build e b w = Inl cause"
  by (simp add: Build_Cons [OF l] n o unify_orphaned_append u y x)

lemma marker_InitWorkspace_steps:
  "copy_files ref_os ''ws'' 0 (files marker_builder) [] marker_fs =
     (Inr ([] @ ''ws/0.env.cue'' # []),
      (''ws/0.env.cue'', ''@timoni(runtime:string:TOKEN)'') # marker_fs)"
  "inject_files ref_os [] ((''ws/0.env.cue'', ''@timoni(runtime:string:TOKEN)'') # marker_fs) =
     (None, (''ws/0.env.cue'', ''@timoni(runtime:string:TOKEN)'') # marker_fs)"
  "injector_Inject ref_os ''ws/0.env.cue''
     ((''ws/0.env.cue'', ''@timoni(runtime:string:TOKEN)'') # marker_fs) =
     Inl (ErrorString ''cannot resolve @timoni(runtime:string:TOKEN)'')"
  by (simp_all add: ref_os_def marker_builder_def marker_fs_def dstFile_def filepath_Split_def
      ref_Copy_def ref_Inject_def itoa.simps Let_def)

lemma absent_load:
  "load_Instances ref_engine (files absent_builder) [] = absent_instance # []"
  by (simp add: ref_engine_def absent_builder_def absent_instance_def ref_Instances_def)

lemma absent_Err:
  "Err absent_instance = Some (ErrorString ''open ws/0.absent.cue: no such file or directory'')"
  by (simp add: absent_instance_def)

lemma broken_load:
  "load_Instances ref_engine (files broken_builder) broken_fs = broken_instance # []"
  by (simp add: ref_engine_def broken_builder_def broken_fs_def broken_instance_def
      broken_file_def ref_Instances_def extension_def)

lemma broken_steps:
  "Err broken_instance = None"
  "OrphanedFiles broken_instance = [] @ broken_file # []"
  "unify_orphaned ref_engine (ctx_BuildInstance ref_engine broken_instance) [] = Inr (Value Any)"
  "Encoding broken_file = build_YAML"
  "yaml_Extract ref_engine (Filename broken_file) (Source broken_file) =
     Inl (ErrorString ''ws/0.broken.yaml: syntax error'')"
  by (simp_all add: ref_engine_def broken_instance_def broken_file_def ref_BuildInstance_def
      build_YAML_def parse_doc_def)

lemma conflict_load:
  "load_Instances ref_engine (files conflict_builder) conflict_fs = conflict_instance # []"
  by (simp add: ref_engine_def conflict_builder_def conflict_fs_def conflict_instance_def
      ref_Instances_def extension_def parse_doc_def ParsePath_def)

lemma conflict_steps:
  "Err conflict_instance = None"
  "unify_orphaned ref_engine (ctx_BuildInstance ref_engine conflict_instance)
     (OrphanedFiles conflict_instance) =
     Inr (Bottom (ErrorString ''client.enabled: conflicting values''))"
  "cue_Err ref_engine (Bottom (ErrorString ''client.enabled: conflicting values'')) =
     Some (ErrorString ''client.enabled: conflicting values'')"
  by (simp_all add: ref_engine_def conflict_instance_def ref_BuildInstance_def
      build_YAML_def parse_doc_def ParsePath_def unify_def)

lemma schema_Err: "Err schema_instance = None"
  by (simp add: schema_instance_def)

text \<open>
  C5, as the code has it. Every injection error in InitWorkspace and every error of the
  engine at a step of Build (the error of the first loaded instance, of the YAML parser,
  of the composed value, of the concreteness check) is returned, and the diagnostic of
  the step that failed is the end of the returned message. An error of the injector is
  returned by InitWorkspace wrapped with the base name of the staged file: the message is
  \<^verbatim>\<open>failed to inject <name>: \<close> followed by the diagnostic, and the error unwraps to the
  injector's. Build wraps the error of the loaded instance with the fixed text
  \<^verbatim>\<open>instance error: \<close>, which names no file, and returns the error of the YAML parser, the
  evaluation error of the composed value and the error of the concreteness check as the
  engine gave them, with nothing added.
\<close>

theorem pipeline_errors_are_returned:
  "(copy_files sys ws 0 (files b) [] w = (Inr (pre @ f # post), w1) \<and>
    inject_files sys pre w1 = (None, w2) \<and>
    injector_Inject sys f w2 = Inl cause
      \<longrightarrow> (\<exists>err. InitWorkspace api sys b ws w = (Some err, b, w2) \<and>
             wraps (snd (filepath_Split f)) cause err \<and>
             Error err = ''failed to inject '' @ snd (filepath_Split f) @ '': '' @ Error cause)) \<and>
   (load_Instances e (files b) fs = inst # ix \<and> Err inst = Some cause
      \<longrightarrow> Build e b fs = Inl (WrapError (''instance error: '' @ Error cause) cause)) \<and>
   (load_Instances e (files b) fs = inst # ix \<and> Err inst = None \<and>
    OrphanedFiles inst = opre @ g # opost \<and>
    unify_orphaned e (ctx_BuildInstance e inst) opre = Inr v \<and>
    Encoding g = build_YAML \<and> yaml_Extract e (Filename g) (Source g) = Inl cause
      \<longrightarrow> Build e b fs = Inl cause) \<and>
   (load_Instances e (files b) fs = inst # ix \<and> Err inst = None \<and>
    unify_orphaned e (ctx_BuildInstance e inst) (OrphanedFiles inst) = Inr v \<and>
    cue_Err e v = Some cause
      \<longrightarrow> Build e b fs = Inl cause) \<and>
   (load_Instances e (files b) fs = inst # ix \<and> Err inst = None \<and>
    unify_orphaned e (ctx_BuildInstance e inst) (OrphanedFiles inst) = Inr v \<and>
    cue_Err e v = None \<and> cue_Validate e v = Some cause
      \<longrightarrow> Build e b fs = Inl cause)"
proof (intro conjI impI)
  assume a: "copy_files sys ws 0 (files b) [] w = (Inr (pre @ f # post), w1) \<and>
    inject_files sys pre w1 = (None, w2) \<and> injector_Inject sys f w2 = Inl cause"
  let ?err = "Errorf_w (''failed to inject '' @ snd (filepath_Split f) @ '': '') (Some cause)"
  have "InitWorkspace api sys b ws w = (Some ?err, b, w2)"
    by (rule InitWorkspace_inject_error
        [OF a [THEN conjunct1] a [THEN conjunct2, THEN conjunct1]
          a [THEN conjunct2, THEN conjunct2]])
  moreover have "wraps (snd (filepath_Split f)) cause ?err"
    by (rule wraps_Errorf)
  moreover have "Error ?err = ''failed to inject '' @ snd (filepath_Split f) @ '': '' @ Error cause"
    by simp
  ultimately show "\<exists>err. InitWorkspace api sys b ws w = (Some err, b, w2) \<and>
      wraps (snd (filepath_Split f)) cause err \<and>
      Error err = ''failed to inject '' @ snd (filepath_Split f) @ '': '' @ Error cause"
    by blast
next
  assume "load_Instances e (files b) fs = inst # ix \<and> Err inst = Some cause"
  then show "Build e b fs = Inl (WrapError (''instance error: '' @ Error cause) cause)"
    by (simp add: Build_def)
next
  assume "load_Instances e (files b) fs = inst # ix \<and> Err inst = None \<and>
    OrphanedFiles inst = opre @ g # opost \<and>
    unify_orphaned e (ctx_BuildInstance e inst) opre = Inr v \<and>
    Encoding g = build_YAML \<and> yaml_Extract e (Filename g) (Source g) = Inl cause"
  then show "Build e b fs = Inl cause"
    by (intro Build_extract_error [of e b fs inst ix opre g opost v]) simp_all
next
  assume "load_Instances e (files b) fs = inst # ix \<and> Err inst = None \<and>
    unify_orphaned e (ctx_BuildInstance e inst) (OrphanedFiles inst) = Inr v \<and>
    cue_Err e v = Some cause"
  then show "Build e b fs = Inl cause"
    by (simp add: Build_def check_value_def)
next
  assume "load_Instances e (files b) fs = inst # ix \<and> Err inst = None \<and>
    unify_orphaned e (ctx_BuildInstance e inst) (OrphanedFiles inst) = Inr v \<and>
    cue_Err e v = None \<and> cue_Validate e v = Some cause"
  then show "Build e b fs = Inl cause"
    by (simp add: Build_def check_value_def)
qed

theorem pipeline_errors_are_returned_witness:
  "(\<exists>err. InitWorkspace ref_api ref_os marker_builder ''ws'' marker_fs =
       (Some err, marker_builder,
        (''ws/0.env.cue'', ''@timoni(runtime:string:TOKEN)'') # marker_fs) \<and>
     wraps ''0.env.cue'' (ErrorString ''cannot resolve @timoni(runtime:string:TOKEN)'') err \<and>
     Error err = ''failed to inject 0.env.cue: cannot resolve @timoni(runtime:string:TOKEN)'') \<and>
   Build ref_engine absent_builder [] =
     Inl (WrapError ''instance error: open ws/0.absent.cue: no such file or directory''
            (ErrorString ''open ws/0.absent.cue: no such file or directory'')) \<and>
   Build ref_engine broken_builder broken_fs =
     Inl (ErrorString ''ws/0.broken.yaml: syntax error'') \<and>
   Build ref_engine conflict_builder conflict_fs =
     Inl (ErrorString ''client.enabled: conflicting values'') \<and>
   Build ref_engine schema_builder schema_fs =
     Inl (ErrorString ''bundle.name: incomplete value'')"
proof -
  note t = pipeline_errors_are_returned
  have s: "snd (filepath_Split ''ws/0.env.cue'') = ''0.env.cue''"
    by (simp add: filepath_Split_def)
  have 1: "\<exists>err. InitWorkspace ref_api ref_os marker_builder ''ws'' marker_fs =
       (Some err, marker_builder,
        (''ws/0.env.cue'', ''@timoni(runtime:string:TOKEN)'') # marker_fs) \<and>
     wraps ''0.env.cue'' (ErrorString ''cannot resolve @timoni(runtime:string:TOKEN)'') err \<and>
     Error err = ''failed to inject 0.env.cue: cannot resolve @timoni(runtime:string:TOKEN)''"
    using t [where sys = ref_os and ws = "''ws''" and b = marker_builder and w = marker_fs
        and pre = "[]" and f = "''ws/0.env.cue''" and post = "[]" and api = ref_api,
        THEN conjunct1, rule_format, OF conjI [OF _ conjI],
        OF marker_InitWorkspace_steps]
    by (simp add: s)
  have 2: "Build ref_engine absent_builder [] =
     Inl (WrapError ''instance error: open ws/0.absent.cue: no such file or directory''
            (ErrorString ''open ws/0.absent.cue: no such file or directory''))"
    using t [where e = ref_engine, THEN conjunct2, THEN conjunct1, rule_format,
        OF conjI, OF absent_load absent_Err]
    by simp
  have 3: "Build ref_engine broken_builder broken_fs =
     Inl (ErrorString ''ws/0.broken.yaml: syntax error'')"
    by (rule t [where e = ref_engine and inst = broken_instance and ix = "[]" and opre = "[]"
          and g = broken_file and opost = "[]" and v = "Value Any",
          THEN conjunct2, THEN conjunct2, THEN conjunct1, rule_format])
      (intro conjI broken_load broken_steps)
  have 4: "Build ref_engine conflict_builder conflict_fs =
     Inl (ErrorString ''client.enabled: conflicting values'')"
    by (rule t [where e = ref_engine and inst = conflict_instance and ix = "[]"
          and v = "Bottom (ErrorString ''client.enabled: conflicting values'')",
          THEN conjunct2, THEN conjunct2, THEN conjunct2, THEN conjunct1, rule_format])
      (intro conjI conflict_load conflict_steps)
  have 5: "Build ref_engine schema_builder schema_fs =
     Inl (ErrorString ''bundle.name: incomplete value'')"
    by (rule t [where e = ref_engine and inst = schema_instance and ix = "[]"
          and v = schema_value,
          THEN conjunct2, THEN conjunct2, THEN conjunct2, THEN conjunct2, rule_format])
      (intro conjI schema_load schema_Err schema_unify_orphaned schema_checks)
  show ?thesis
    by (intro conjI 1 2 3 4 5)
qed

text \<open>
  C5, as stated, fails for Build: the bundle file sets \<^verbatim>\<open>client.enabled\<close> to one value and the
  staged YAML override to another, the composed value has the engine's conflict error,
  and Build returns that error itself. The returned error wraps nothing, its message is
  the engine's diagnostic with nothing before it, and neither staged file is wrapped
  around it.
\<close>

theorem Build_error_not_wrapped_counterexample:
  "unify_orphaned ref_engine (ctx_BuildInstance ref_engine conflict_instance)
     (OrphanedFiles conflict_instance) =
     Inr (Bottom (ErrorString ''client.enabled: conflicting values'')) \<and>
   cue_Err ref_engine (Bottom (ErrorString ''client.enabled: conflicting values'')) =
     Some (ErrorString ''client.enabled: conflicting values'') \<and>
   Build ref_engine conflict_builder conflict_fs =
     Inl (ErrorString ''client.enabled: conflicting values'') \<and>
   Unwrap (ErrorString ''client.enabled: conflicting values'') = None \<and>
   \<not> wraps ''0.bundle.cue'' (ErrorString ''client.enabled: conflicting values'')
       (ErrorString ''client.enabled: conflicting values'') \<and>
   \<not> wraps ''1.values.yaml'' (ErrorString ''client.enabled: conflicting values'')
       (ErrorString ''client.enabled: conflicting values'') \<and>
   \<not> wraps ''client.enabled'' (ErrorString ''client.enabled: conflicting values'')
       (ErrorString ''client.enabled: conflicting values'') \<and>
   \<not> sublist ''0.bundle.cue'' (Error (ErrorString ''client.enabled: conflicting values'')) \<and>
   \<not> sublist ''1.values.yaml'' (Error (ErrorString ''client.enabled: conflicting values''))"
proof -
  have B: "Build ref_engine conflict_builder conflict_fs =
     Inl (ErrorString ''client.enabled: conflicting values'')"
    by (simp add: Build_Cons [OF conflict_load] conflict_steps check_value_def)
  have U: "Unwrap (ErrorString ''client.enabled: conflicting values'') = None"
    by simp
  have W: "\<not> wraps ident (ErrorString ''client.enabled: conflicting values'')
       (ErrorString ''client.enabled: conflicting values'')" for ident
    by (simp add: wraps_def)
  have S1: "\<not> sublist ''0.bundle.cue'' (Error (ErrorString ''client.enabled: conflicting values''))"
    by code_simp
  have S2: "\<not> sublist ''1.values.yaml'' (Error (ErrorString ''client.enabled: conflicting values''))"
    by code_simp
  show ?thesis
    by (intro conjI conflict_steps(2) conflict_steps(3) B U W S1 S2)
qed

section \<open>Properties of unification\<close>

lemma both_Inr_iff: "both X Y = Inr (a, b) \<longleftrightarrow> X = Inr a \<and> Y = Inr b"
  by (cases X; cases Y) simp_all

lemma both_Inl_left: "X = Inl c \<Longrightarrow> \<exists>c'. both X Y = Inl c' \<and> set c \<subseteq> set c'"
  by (cases Y) simp_all

lemma both_Inl_right: "Y = Inl c \<Longrightarrow> \<exists>c'. both X Y = Inl c' \<and> set c \<subseteq> set c'"
  by (cases X) simp_all

lemma unify_fields_Cons_Inr:
  "unify_fields p ((k, x) # xs) ys = Inr zs \<longleftrightarrow>
     (\<exists>z zs'. zs = (k, z) # zs' \<and>
        (case map_of ys k of None \<Rightarrow> Inr x | Some y \<Rightarrow> unify_at (p @ [k]) x y) = Inr z \<and>
        unify_fields p xs ys = Inr zs')"
  by (auto simp: both_Inr_iff split: sum.splits)

lemma unify_fields_absent:
  "unify_fields p xs ys = Inr zs \<Longrightarrow> map_of xs k = None \<Longrightarrow> map_of zs k = None"
proof (induction xs arbitrary: zs)
  case Nil
  then show ?case by simp
next
  case (Cons kx xs)
  obtain k' x where kx: "kx = (k', x)" by (cases kx)
  from Cons.prems(1) obtain z zs' where zs: "zs = (k', z) # zs'"
    and r: "unify_fields p xs ys = Inr zs'"
    unfolding kx unify_fields_Cons_Inr by blast
  from Cons.prems(2) have "k' \<noteq> k" "map_of xs k = None"
    by (simp_all add: kx split: if_splits)
  with Cons.IH [OF r] show ?case
    by (simp add: zs)
qed

lemma unify_fields_present:
  "unify_fields p xs ys = Inr zs \<Longrightarrow> map_of xs k = Some x \<Longrightarrow>
     \<exists>z. map_of zs k = Some z \<and>
       (case map_of ys k of None \<Rightarrow> Inr x | Some y \<Rightarrow> unify_at (p @ [k]) x y) = Inr z"
proof (induction xs arbitrary: zs)
  case Nil
  then show ?case by simp
next
  case (Cons kx xs)
  obtain k' x' where kx: "kx = (k', x')" by (cases kx)
  from Cons.prems(1) obtain z zs' where zs: "zs = (k', z) # zs'"
    and h: "(case map_of ys k' of None \<Rightarrow> Inr x' | Some y \<Rightarrow> unify_at (p @ [k']) x' y) = Inr z"
    and r: "unify_fields p xs ys = Inr zs'"
    unfolding kx unify_fields_Cons_Inr by blast
  show ?case
  proof (cases "k' = k")
    case True
    with Cons.prems(2) have x': "x' = x" by (simp add: kx)
    from h have "(case map_of ys k of None \<Rightarrow> Inr x | Some y \<Rightarrow> unify_at (p @ [k]) x y) = Inr z"
      unfolding True x' .
    then show ?thesis
      by (simp add: zs True)
  next
    case False
    with Cons.prems(2) have "map_of xs k = Some x" by (simp add: kx)
    from Cons.IH [OF r this] False show ?thesis by (simp add: zs)
  qed
qed

lemma unify_fields_conflict:
  "map_of xs k = Some x \<Longrightarrow> map_of ys k = Some y \<Longrightarrow> unify_at (p @ [k]) x y = Inl cs \<Longrightarrow>
     \<exists>cs'. unify_fields p xs ys = Inl cs' \<and> set cs \<subseteq> set cs'"
proof (induction xs)
  case Nil
  then show ?case by simp
next
  case (Cons kx xs)
  obtain k' x' where kx: "kx = (k', x')" by (cases kx)
  let ?h = "case map_of ys k' of None \<Rightarrow> Inr x' | Some y \<Rightarrow> unify_at (p @ [k']) x' y"
  have "\<exists>c'. both ?h (unify_fields p xs ys) = Inl c' \<and> set cs \<subseteq> set c'"
  proof (cases "k' = k")
    case True
    with Cons.prems(1) have x': "x' = x" by (simp add: kx)
    have "?h = Inl cs"
      unfolding True x' by (simp add: Cons.prems(2,3))
    then show ?thesis by (rule both_Inl_left)
  next
    case False
    with Cons.prems(1) have "map_of xs k = Some x" by (simp add: kx)
    from Cons.IH [OF this Cons.prems(2,3)] obtain cs' where
      "unify_fields p xs ys = Inl cs'" "set cs \<subseteq> set cs'" by blast
    with both_Inl_right [of "unify_fields p xs ys" cs' ?h] show ?thesis
      by fastforce
  qed
  then show ?case
    by (auto simp: kx)
qed

lemma map_of_filter_key:
  "map_of (filter (\<lambda>(k, y). P k) ys) k = (if P k then map_of ys k else None)"
  by (induction ys) auto

lemma unify_at_Doc_Inr:
  "unify_at p (Doc xs) (Doc ys) = Inr C \<longleftrightarrow>
     (\<exists>zs. unify_fields p xs ys = Inr zs \<and>
        C = Doc (zs @ filter (\<lambda>(k, y). map_of xs k = None) ys))"
  by (auto split: sum.splits)

lemma unify_at_Doc_lookup:
  assumes "unify_at p (Doc xs) (Doc ys) = Inr C"
  shows "map_of xs k = None \<Longrightarrow> value_at C [k] = map_of ys k"
    and "map_of xs k = Some x \<Longrightarrow> map_of ys k = None \<Longrightarrow> value_at C [k] = Some x"
    and "map_of xs k = Some x \<Longrightarrow> map_of ys k = Some y \<Longrightarrow>
      \<exists>z. unify_at (p @ [k]) x y = Inr z \<and> value_at C [k] = Some z"
proof -
  from assms obtain zs where zs: "unify_fields p xs ys = Inr zs"
    and C: "C = Doc (zs @ filter (\<lambda>(k, y). map_of xs k = None) ys)"
    unfolding unify_at_Doc_Inr by blast
  show "value_at C [k] = map_of ys k" if "map_of xs k = None"
    using unify_fields_absent [OF zs that] that
    by (simp add: C map_add_def map_of_filter_key split: option.splits)
  show "value_at C [k] = Some x" if "map_of xs k = Some x" "map_of ys k = None"
    using unify_fields_present [OF zs that(1)] that
    by (auto simp: C map_add_def map_of_filter_key)
  show "\<exists>z. unify_at (p @ [k]) x y = Inr z \<and> value_at C [k] = Some z"
    if "map_of xs k = Some x" "map_of ys k = Some y"
    using unify_fields_present [OF zs that(1)] that
    by (auto simp: C map_add_def map_of_filter_key)
qed

lemma value_at_step: "value_at C [k] = Some z \<Longrightarrow> value_at C (k # q) = value_at z q"
  by (cases C) (simp_all split: option.splits)

lemma value_at_Cons_SomeD:
  assumes "value_at A (k # q) = Some v"
  obtains xs x where "A = Doc xs" "map_of xs k = Some x" "value_at x q = Some v"
  using assms by (cases A) (simp_all split: option.splits)

lemma unify_at_conflict:
  "value_at A q = Some (Scalar a) \<Longrightarrow> value_at B q = Some (Scalar b) \<Longrightarrow> a \<noteq> b \<Longrightarrow>
     \<exists>cs. unify_at p A B = Inl cs \<and> p @ q \<in> set cs"
proof (induction q arbitrary: A B p)
  case Nil
  then show ?case by simp
next
  case (Cons k q)
  from Cons.prems(1) obtain xs x where A: "A = Doc xs" and x: "map_of xs k = Some x"
    and xa: "value_at x q = Some (Scalar a)"
    by (rule value_at_Cons_SomeD)
  from Cons.prems(2) obtain ys y where B: "B = Doc ys" and y: "map_of ys k = Some y"
    and yb: "value_at y q = Some (Scalar b)"
    by (rule value_at_Cons_SomeD)
  from Cons.IH [OF xa yb Cons.prems(3), of "p @ [k]"] obtain cs where
    cs: "unify_at (p @ [k]) x y = Inl cs" and mem: "p @ k # q \<in> set cs"
    by auto
  from unify_fields_conflict [OF x y cs] obtain cs' where
    "unify_fields p xs ys = Inl cs'" "set cs \<subseteq> set cs'"
    by blast
  with mem show ?case
    by (auto simp: A B)
qed

lemma unify_at_later_sets:
  "unify_at p A B = Inr C \<Longrightarrow> value_at B q = Some (Scalar b) \<Longrightarrow>
     value_at C q = Some (Scalar b) \<and>
     (value_at A q = None \<or> value_at A q = Some Any \<or> value_at A q = Some (Scalar b))"
proof (induction q arbitrary: A B C p)
  case Nil
  then show ?case
    by (cases A) (simp_all split: if_splits)
next
  case (Cons k q)
  from Cons.prems(2) obtain ys y where B: "B = Doc ys" and y: "map_of ys k = Some y"
    and yb: "value_at y q = Some (Scalar b)"
    by (rule value_at_Cons_SomeD)
  show ?case
  proof (cases A)
    case Any
    with Cons.prems show ?thesis by simp
  next
    case (Scalar a)
    with Cons.prems(1) B show ?thesis by simp
  next
    case (Doc xs)
    note u = Cons.prems(1) [unfolded Doc B]
    show ?thesis
    proof (cases "map_of xs k")
      case None
      from unify_at_Doc_lookup(1) [OF u None] y have "value_at C [k] = Some y"
        by simp
      from value_at_step [OF this, of q] yb None show ?thesis
        by (simp add: Doc)
    next
      case (Some x)
      from unify_at_Doc_lookup(3) [OF u Some y] obtain z where
        z: "unify_at (p @ [k]) x y = Inr z" and Cz: "value_at C [k] = Some z"
        by blast
      from Cons.IH [OF z yb] value_at_step [OF Cz, of q] Some show ?thesis
        by (simp add: Doc)
    qed
  qed
qed

text \<open>
  C7. The unification operation, as the specification words it: two equal concrete
  scalars unify to that scalar; two documents that hold unequal concrete scalars at the
  same path unify to a conflict error that names the full path, whichever comes first; a
  key present in only one of two documents passes through unchanged; and when a later
  document sets a field to a scalar and unification succeeds, the result has that scalar
  there and the earlier document had the field absent, unconstrained or equal.
\<close>

theorem unify_contract:
  "unify (Scalar a) (Scalar a) = Inr (Scalar a) \<and>
   (a \<noteq> b \<and> value_at A q = Some (Scalar a) \<and> value_at B q = Some (Scalar b)
      \<longrightarrow> (\<exists>cs. unify A B = Inl cs \<and> q \<in> set cs) \<and>
          (\<exists>cs. unify B A = Inl cs \<and> q \<in> set cs)) \<and>
   (unify (Doc xs) (Doc ys) = Inr C \<and> map_of xs k = Some x \<and> map_of ys k = None
      \<longrightarrow> value_at C [k] = Some x) \<and>
   (unify (Doc xs) (Doc ys) = Inr C \<and> map_of xs k = None \<and> map_of ys k = Some y
      \<longrightarrow> value_at C [k] = Some y) \<and>
   (unify A B = Inr C' \<and> value_at B q' = Some (Scalar b')
      \<longrightarrow> value_at C' q' = Some (Scalar b') \<and>
          (value_at A q' = None \<or> value_at A q' = Some Any \<or>
           value_at A q' = Some (Scalar b')))"
proof (intro conjI impI)
  show "unify (Scalar a) (Scalar a) = Inr (Scalar a)"
    by (simp add: unify_def)
next
  assume h: "a \<noteq> b \<and> value_at A q = Some (Scalar a) \<and> value_at B q = Some (Scalar b)"
  then have ne: "a \<noteq> b" and A: "value_at A q = Some (Scalar a)"
    and B: "value_at B q = Some (Scalar b)"
    by simp_all
  from unify_at_conflict [OF A B ne, of "[]"]
  show "\<exists>cs. unify A B = Inl cs \<and> q \<in> set cs"
    by (simp add: unify_def)
  from ne have "b \<noteq> a" by simp
  from unify_at_conflict [OF B A this, of "[]"]
  show "\<exists>cs. unify B A = Inl cs \<and> q \<in> set cs"
    by (simp add: unify_def)
next
  assume h: "unify (Doc xs) (Doc ys) = Inr C \<and> map_of xs k = Some x \<and> map_of ys k = None"
  then have u: "unify_at [] (Doc xs) (Doc ys) = Inr C"
    by (simp add: unify_def)
  from h unify_at_Doc_lookup(2) [OF u] show "value_at C [k] = Some x"
    by blast
next
  assume h: "unify (Doc xs) (Doc ys) = Inr C \<and> map_of xs k = None \<and> map_of ys k = Some y"
  then have u: "unify_at [] (Doc xs) (Doc ys) = Inr C"
    by (simp add: unify_def)
  from h unify_at_Doc_lookup(1) [OF u, of k] show "value_at C [k] = Some y"
    by simp
next
  assume h: "unify A B = Inr C' \<and> value_at B q' = Some (Scalar b')"
  then have u: "unify_at [] A B = Inr C'" and B: "value_at B q' = Some (Scalar b')"
    by (simp_all add: unify_def)
  from unify_at_later_sets [OF u B] show "value_at C' q' = Some (Scalar b')"
    by blast
  from unify_at_later_sets [OF u B]
  show "value_at A q' = None \<or> value_at A q' = Some Any \<or> value_at A q' = Some (Scalar b')"
    by blast
qed

theorem unify_contract_witness:
  "unify (Scalar (Str ''tcp://example.io:9090'')) (Scalar (Str ''tcp://example.io:9090'')) =
     Inr (Scalar (Str ''tcp://example.io:9090'')) \<and>
   (Bool True \<noteq> Bool False \<and>
    value_at doc_true [''client'', ''enabled''] = Some (Scalar (Bool True)) \<and>
    value_at doc_false [''client'', ''enabled''] = Some (Scalar (Bool False)) \<and>
    unify doc_true doc_false = Inl [[''client'', ''enabled'']] \<and>
    unify doc_false doc_true = Inl [[''client'', ''enabled'']]) \<and>
   (unify doc_true doc_server =
      Inr (Doc [(''client'', Doc [(''enabled'', Scalar (Bool True))]),
                (''server'', Scalar (Str ''tcp://example.io:9090''))]) \<and>
    value_at (Doc [(''client'', Doc [(''enabled'', Scalar (Bool True))]),
                   (''server'', Scalar (Str ''tcp://example.io:9090''))]) [''client''] =
      Some (Doc [(''enabled'', Scalar (Bool True))]) \<and>
    value_at (Doc [(''client'', Doc [(''enabled'', Scalar (Bool True))]),
                   (''server'', Scalar (Str ''tcp://example.io:9090''))]) [''server''] =
      Some (Scalar (Str ''tcp://example.io:9090''))) \<and>
   (unify doc_open doc_false =
      Inr (Doc [(''client'', Doc [(''enabled'', Scalar (Bool False))]),
                (''server'', Scalar (Str ''tcp://example.io:9090''))]) \<and>
    value_at doc_false [''client'', ''enabled''] = Some (Scalar (Bool False)) \<and>
    value_at (Doc [(''client'', Doc [(''enabled'', Scalar (Bool False))]),
                   (''server'', Scalar (Str ''tcp://example.io:9090''))])
      [''client'', ''enabled''] = Some (Scalar (Bool False)) \<and>
    value_at doc_open [''client'', ''enabled''] = Some Any)"
proof -
  note t = unify_contract
  let ?C = "Doc [(''client'', Doc [(''enabled'', Scalar (Bool True))]),
                 (''server'', Scalar (Str ''tcp://example.io:9090''))]"
  let ?C' = "Doc [(''client'', Doc [(''enabled'', Scalar (Bool False))]),
                  (''server'', Scalar (Str ''tcp://example.io:9090''))]"
  have ne: "Bool True \<noteq> Bool False" by simp
  have vt: "value_at doc_true [''client'', ''enabled''] = Some (Scalar (Bool True))"
    by (simp add: doc_true_def)
  have vf: "value_at doc_false [''client'', ''enabled''] = Some (Scalar (Bool False))"
    by (simp add: doc_false_def)
  have vo: "value_at doc_open [''client'', ''enabled''] = Some Any"
    by (simp add: doc_open_def)
  have u1: "unify doc_true doc_false = Inl [[''client'', ''enabled'']]"
    by (simp add: unify_def doc_true_def doc_false_def)
  have u2: "unify doc_false doc_true = Inl [[''client'', ''enabled'']]"
    by (simp add: unify_def doc_true_def doc_false_def)
  have u3: "unify (Doc [(''client'', Doc [(''enabled'', Scalar (Bool True))])])
      (Doc [(''server'', Scalar (Str ''tcp://example.io:9090''))]) = Inr ?C"
    by (simp add: unify_def)
  have u4: "unify doc_open doc_false = Inr ?C'"
    by (simp add: unify_def doc_open_def doc_false_def)
  have 1: "unify (Scalar (Str ''tcp://example.io:9090'')) (Scalar (Str ''tcp://example.io:9090'')) =
     Inr (Scalar (Str ''tcp://example.io:9090''))"
    by (rule t [THEN conjunct1])
  from t [where a = "Bool True" and b = "Bool False" and A = doc_true and B = doc_false
      and q = "[''client'', ''enabled'']", THEN conjunct2, THEN conjunct1, rule_format,
      OF conjI [OF ne conjI [OF vt vf]]]
  have 2: "(\<exists>cs. unify doc_true doc_false = Inl cs \<and> [''client'', ''enabled''] \<in> set cs) \<and>
      (\<exists>cs. unify doc_false doc_true = Inl cs \<and> [''client'', ''enabled''] \<in> set cs)" .
  have 3: "value_at ?C [''client''] = Some (Doc [(''enabled'', Scalar (Bool True))])"
    by (rule t [where xs = "[(''client'', Doc [(''enabled'', Scalar (Bool True))])]"
          and ys = "[(''server'', Scalar (Str ''tcp://example.io:9090''))]",
          THEN conjunct2, THEN conjunct2, THEN conjunct1, rule_format])
      (simp add: u3)
  have 4: "value_at ?C [''server''] = Some (Scalar (Str ''tcp://example.io:9090''))"
    by (rule t [where xs = "[(''client'', Doc [(''enabled'', Scalar (Bool True))])]"
          and ys = "[(''server'', Scalar (Str ''tcp://example.io:9090''))]",
          THEN conjunct2, THEN conjunct2, THEN conjunct2, THEN conjunct1, rule_format])
      (simp add: u3)
  from t [where A = doc_open and B = doc_false and C' = ?C' and q' = "[''client'', ''enabled'']"
      and b' = "Bool False", THEN conjunct2, THEN conjunct2, THEN conjunct2, THEN conjunct2,
      rule_format, OF conjI [OF u4 vf]]
  have 5: "value_at ?C' [''client'', ''enabled''] = Some (Scalar (Bool False))"
    by simp
  from 2 u1 u2 have 6: "unify doc_true doc_false = Inl [[''client'', ''enabled'']] \<and>
      unify doc_false doc_true = Inl [[''client'', ''enabled'']]"
    by simp
  have u3': "unify doc_true doc_server = Inr ?C"
    using u3 by (simp add: doc_true_def doc_server_def)
  show ?thesis
    by (intro conjI 1 ne vt vf 6 [THEN conjunct1] 6 [THEN conjunct2] u3' 3 4 u4 5 vo)
qed


end
